theory Spec2Isabelle
  imports Main "HOL-Library.AList"
begin

section \<open>Data model of server.js\<close>

text \<open>
  The two marks are the JavaScript strings 'X' and 'O'; a board cell holds one of them
  or null. The status of a room is one of the strings 'waiting', 'playing', 'finished'.
  Socket ids, room ids and player names are strings.
\<close>

datatype mark = MarkX | MarkO

datatype status = waiting | playing | finished

type_synonym socket_id = string
type_synonym room_id = string

text \<open>An element of \<open>GameRoom.players\<close>: the object literal built by \<open>addPlayer\<close>.\<close>

record player_entry =
  socketId :: socket_id
  name :: string
  symbol :: mark

text \<open>
  The fields of class \<open>GameRoom\<close>, in the order of the constructor. The field \<open>id\<close> of
  the source is called \<open>ident\<close> here. A board cell is \<open>None\<close> for null. The flag
  \<open>isPublic\<close> is what the client sent with \<open>create-room\<close>; the source reads its
  truthiness, and it is a boolean here. The move count is a natural number.
\<close>

record GameRoom =
  ident :: room_id
  isPublic :: bool
  creatorId :: socket_id
  players :: "player_entry list"
  board :: "mark option list"
  currentPlayer :: mark
  status :: status
  winner :: "mark option"
  moves :: nat

text \<open>
  Reading \<open>this.board[index]\<close>: an index that is not one of the array gives the
  JavaScript value undefined, which is neither null nor a mark.
\<close>

datatype js_read = Undefined | Value "mark option"

definition board_at :: "mark option list \<Rightarrow> int \<Rightarrow> js_read" where
  "board_at b i = (if 0 \<le> i \<and> i < int (length b) then Value (b ! nat i) else Undefined)"

definition new_room :: "room_id \<Rightarrow> bool \<Rightarrow> socket_id \<Rightarrow> GameRoom" where
  "new_room rid pub creator =
     \<lparr>ident = rid, isPublic = pub, creatorId = creator, players = [],
      board = replicate 9 None, currentPlayer = MarkX, status = waiting,
      winner = None, moves = 0\<rparr>"

section \<open>Operations of GameRoom\<close>

definition addPlayer :: "socket_id \<Rightarrow> string \<Rightarrow> GameRoom \<Rightarrow> bool \<times> GameRoom" where
  "addPlayer sid playerName r =
     (if length (players r) \<ge> 2 then (False, r)
      else
        let playerSymbol = (if length (players r) = 0 then MarkX else MarkO);
            r1 = r\<lparr>players := players r @
                   [\<lparr>socketId = sid, name = playerName, symbol = playerSymbol\<rparr>]\<rparr>
        in if length (players r1) = 2 then (True, r1\<lparr>status := playing\<rparr>)
           else (True, r1))"

definition reset :: "GameRoom \<Rightarrow> GameRoom" where
  "reset r =
     r\<lparr>board := replicate 9 None, currentPlayer := MarkX,
       status := (if length (players r) = 2 then playing else waiting),
       winner := None, moves := 0\<rparr>"

definition removePlayer :: "socket_id \<Rightarrow> GameRoom \<Rightarrow> GameRoom" where
  "removePlayer sid r =
     (let r1 = r\<lparr>players := filter (\<lambda>p. socketId p \<noteq> sid) (players r)\<rparr>
      in if length (players r1) = 0 then reset (r1\<lparr>status := waiting\<rparr>) else r1)"

text \<open>The eight patterns of \<open>checkWinner\<close>, in the order of the source.\<close>

definition winPatterns :: "(int \<times> int \<times> int) list" where
  "winPatterns =
     [(0, 1, 2), (3, 4, 5), (6, 7, 8),
      (0, 3, 6), (1, 4, 7), (2, 5, 8),
      (0, 4, 8), (2, 4, 6)]"

text \<open>
  The condition of the loop body: \<open>board[a]\<close> is truthy (a mark, not null and not
  undefined) and strictly equal to \<open>board[b]\<close> and to \<open>board[c]\<close>.
\<close>

definition pattern_hit :: "mark option list \<Rightarrow> int \<times> int \<times> int \<Rightarrow> bool" where
  "pattern_hit bd p =
     (case p of (a, b, c) \<Rightarrow>
        (case board_at bd a of
           Value (Some m) \<Rightarrow> board_at bd a = board_at bd b \<and> board_at bd a = board_at bd c
         | _ \<Rightarrow> False))"

text \<open>The value returned on a hit, \<open>this.board[a]\<close>.\<close>

definition pattern_mark :: "mark option list \<Rightarrow> int \<times> int \<times> int \<Rightarrow> mark option" where
  "pattern_mark bd p =
     (case p of (a, b, c) \<Rightarrow> (case board_at bd a of Value v \<Rightarrow> v | Undefined \<Rightarrow> None))"

text \<open>The \<open>for ... of\<close> loop: the first pattern that hits decides, else null.\<close>

fun scan_patterns :: "mark option list \<Rightarrow> (int \<times> int \<times> int) list \<Rightarrow> mark option" where
  "scan_patterns bd [] = None"
| "scan_patterns bd (p # ps) =
     (if pattern_hit bd p then pattern_mark bd p else scan_patterns bd ps)"

definition checkWinner :: "GameRoom \<Rightarrow> mark option" where
  "checkWinner r = scan_patterns (board r) winPatterns"

text \<open>
  \<open>makeMove\<close>: the index comes from the client and is modelled as an integer. An
  index outside the array reads undefined, which is \<open>!== null\<close>, so the call returns
  false before anything is written. \<open>find\<close> returns the first entry with the socket id.
\<close>

definition makeMove :: "int \<Rightarrow> socket_id \<Rightarrow> GameRoom \<Rightarrow> bool \<times> GameRoom" where
  "makeMove index sid r =
     (if status r \<noteq> playing then (False, r)
      else if board_at (board r) index \<noteq> Value None then (False, r)
      else
        (case find (\<lambda>p. socketId p = sid) (players r) of
           None \<Rightarrow> (False, r)
         | Some player \<Rightarrow>
             if symbol player \<noteq> currentPlayer r then (False, r)
             else
               let r1 = r\<lparr>board := (board r)[nat index := Some (currentPlayer r)]\<rparr>;
                   r2 = r1\<lparr>moves := moves r1 + 1\<rparr>;
                   r3 = r2\<lparr>winner := checkWinner r2\<rparr>
               in if winner r3 \<noteq> None \<or> moves r3 = 9
                  then (True, r3\<lparr>status := finished\<rparr>)
                  else (True, r3\<lparr>currentPlayer :=
                          (if currentPlayer r3 = MarkX then MarkO else MarkX)\<rparr>)))"

section \<open>Session directory\<close>

text \<open>
  The values of the \<open>players\<close> map of the source: \<open>{ name, roomId }\<close>, with
  \<open>readyForRematch\<close> added by the rematch handler. A flag that was never set reads
  undefined, which is falsy, and is \<open>False\<close> here. The field \<open>name\<close> is called
  \<open>lobby_name\<close> here.
\<close>

record player_info =
  lobby_name :: string
  roomId :: "room_id option"
  readyForRematch :: bool

text \<open>
  The state of the process: the map \<open>rooms\<close> in insertion order (the order in which
  \<open>rooms.values()\<close> iterates), the map \<open>players\<close> (called \<open>playersMap\<close> here), and
  which socket has joined which broadcast group (\<open>socket.join\<close>, \<open>socket.leave\<close>).
\<close>

record server =
  rooms :: "(room_id \<times> GameRoom) list"
  playersMap :: "socket_id \<rightharpoonup> player_info"
  joined :: "(socket_id \<times> room_id) set"

definition init_server :: server where
  "init_server = \<lparr>rooms = [], playersMap = Map.empty, joined = {}\<rparr>"

text \<open>A JavaScript object literal: its keys in order, each with its value.\<close>

datatype json = JStr string | JBool bool | JNum nat

type_synonym js_object = "(string \<times> json) list"

definition status_string :: "status \<Rightarrow> string" where
  "status_string st =
     (case st of waiting \<Rightarrow> ''waiting'' | playing \<Rightarrow> ''playing'' | finished \<Rightarrow> ''finished'')"

definition getPublicInfo :: "GameRoom \<Rightarrow> js_object" where
  "getPublicInfo r =
     [(''id'', JStr (ident r)),
      (''isPublic'', JBool (isPublic r)),
      (''playersCount'', JNum (length (players r))),
      (''status'', JStr (status_string (status r)))]"

definition getPublicRooms :: "server \<Rightarrow> js_object list" where
  "getPublicRooms s =
     map getPublicInfo
       (filter (\<lambda>room. isPublic room \<and> status room = waiting) (map snd (rooms s)))"

section \<open>Event router\<close>

text \<open>The payload of \<open>game-state\<close>, built by \<open>updateRoomState\<close>.\<close>

record player_view =
  view_name :: string
  view_symbol :: mark
  isCurrentPlayer :: bool

record game_state =
  state_board :: "mark option list"
  state_currentPlayer :: mark
  state_status :: status
  state_winner :: "mark option"
  state_players :: "player_view list"
  isDraw :: bool

definition room_state :: "GameRoom \<Rightarrow> game_state" where
  "room_state room =
     \<lparr>state_board = board room,
      state_currentPlayer = currentPlayer room,
      state_status = status room,
      state_winner = winner room,
      state_players =
        map (\<lambda>p. \<lparr>view_name = name p, view_symbol = symbol p,
                  isCurrentPlayer = (symbol p = currentPlayer room)\<rparr>) (players room),
      isDraw = (moves room = 9 \<and> winner room = None)\<rparr>"

text \<open>
  What a handler sends: \<open>socket.emit\<close> to the caller, \<open>io.emit\<close> to every connection,
  \<open>io.to(roomId).emit\<close> to a group, \<open>socket.to(roomId).emit\<close> to a group without the
  caller. The constructors of \<open>message\<close> are the event names 'public-rooms',
  'room-created', 'room-joined', 'error', 'game-state' and 'rematch-requested'.
\<close>

datatype message =
    PublicRooms "js_object list"
  | RoomCreated room_id bool
  | RoomJoined room_id
  | ErrorMessage string
  | GameState game_state
  | RematchRequested

datatype emission =
    ToSocket socket_id message
  | ToAll message
  | ToRoom room_id message
  | ToRoomExcept room_id socket_id message

definition updateRoomState :: "room_id \<Rightarrow> server \<Rightarrow> emission list" where
  "updateRoomState rid s =
     (case map_of (rooms s) rid of
        None \<Rightarrow> []
      | Some room \<Rightarrow> [ToRoom rid (GameState (room_state room))])"

text \<open>\<open>if (player) player.roomId = roomId\<close>, after \<open>players.get(socket.id)\<close>.\<close>

definition bind_room :: "socket_id \<Rightarrow> room_id \<Rightarrow> server \<Rightarrow> server" where
  "bind_room sid rid s =
     (case playersMap s sid of
        None \<Rightarrow> s
      | Some player \<Rightarrow> s\<lparr>playersMap := (playersMap s)(sid \<mapsto> player\<lparr>roomId := Some rid\<rparr>)\<rparr>)"

definition join_lobby :: "socket_id \<Rightarrow> string \<Rightarrow> server \<Rightarrow> server \<times> emission list" where
  "join_lobby sid playerName s =
     (let s1 = s\<lparr>playersMap := (playersMap s)(sid \<mapsto>
                  \<lparr>lobby_name = playerName, roomId = None, readyForRematch = False\<rparr>)\<rparr>
      in (s1, [ToSocket sid (PublicRooms (getPublicRooms s1))]))"

text \<open>
  \<open>create-room\<close>: the room id is the value \<open>generateRoomId()\<close> returned, an input of
  the model. \<open>rooms.set\<close> keeps the position of a key that is already there.
\<close>

definition create_room ::
  "socket_id \<Rightarrow> room_id \<Rightarrow> bool \<Rightarrow> string \<Rightarrow> server \<Rightarrow> server \<times> emission list" where
  "create_room sid rid pub playerName s =
     (let room = snd (addPlayer sid playerName (new_room rid pub sid));
          s1 = s\<lparr>rooms := AList.update rid room (rooms s)\<rparr>;
          s2 = s1\<lparr>joined := insert (sid, rid) (joined s1)\<rparr>;
          s3 = bind_room sid rid s2
      in (s3,
          [ToSocket sid (RoomCreated rid pub)]
          @ (if pub then [ToAll (PublicRooms (getPublicRooms s3))] else [])
          @ updateRoomState rid s3))"

definition join_room ::
  "socket_id \<Rightarrow> room_id \<Rightarrow> string \<Rightarrow> server \<Rightarrow> server \<times> emission list" where
  "join_room sid rid playerName s =
     (case map_of (rooms s) rid of
        None \<Rightarrow> (s, [ToSocket sid (ErrorMessage ''Room not found'')])
      | Some room \<Rightarrow>
          if length (players room) \<ge> 2
          then (s, [ToSocket sid (ErrorMessage ''Room is full'')])
          else if status room = playing \<or> status room = finished
          then (s, [ToSocket sid (ErrorMessage ''Game already in progress'')])
          else
            let room1 = snd (addPlayer sid playerName room);
                s1 = s\<lparr>rooms := AList.update rid room1 (rooms s)\<rparr>;
                s2 = s1\<lparr>joined := insert (sid, rid) (joined s1)\<rparr>;
                s3 = bind_room sid rid s2
            in (s3,
                [ToSocket sid (RoomJoined rid)]
                @ updateRoomState rid s3
                @ (if isPublic room1 then [ToAll (PublicRooms (getPublicRooms s3))] else [])))"

definition make_move ::
  "socket_id \<Rightarrow> room_id \<Rightarrow> int \<Rightarrow> server \<Rightarrow> server \<times> emission list" where
  "make_move sid rid index s =
     (case map_of (rooms s) rid of
        None \<Rightarrow> (s, [])
      | Some room \<Rightarrow>
          (case makeMove index sid room of
             (ok, room1) \<Rightarrow>
               let s1 = s\<lparr>rooms := AList.update rid room1 (rooms s)\<rparr>
               in if ok then (s1, updateRoomState rid s1) else (s1, [])))"

text \<open>\<open>players.get(p.socketId)?.readyForRematch\<close>, read for its truthiness.\<close>

definition is_ready :: "server \<Rightarrow> player_entry \<Rightarrow> bool" where
  "is_ready s p =
     (case playersMap s (socketId p) of None \<Rightarrow> False | Some pl \<Rightarrow> readyForRematch pl)"

text \<open>The body of \<open>room.players.forEach\<close> in the rematch handler.\<close>

definition clear_ready :: "player_entry \<Rightarrow> server \<Rightarrow> server" where
  "clear_ready p s =
     (case playersMap s (socketId p) of
        None \<Rightarrow> s
      | Some pl \<Rightarrow>
          s\<lparr>playersMap := (playersMap s)(socketId p \<mapsto> pl\<lparr>readyForRematch := False\<rparr>)\<rparr>)"

definition request_rematch ::
  "socket_id \<Rightarrow> room_id \<Rightarrow> server \<Rightarrow> server \<times> emission list" where
  "request_rematch sid rid s =
     (case map_of (rooms s) rid of
        None \<Rightarrow> (s, [])
      | Some room \<Rightarrow>
          if status room \<noteq> finished then (s, [])
          else
            let s1 = (case playersMap s sid of
                        None \<Rightarrow> s
                      | Some player \<Rightarrow>
                          s\<lparr>playersMap :=
                              (playersMap s)(sid \<mapsto> player\<lparr>readyForRematch := True\<rparr>)\<rparr>)
            in if length (players room) = 2
               then
                 if list_all (is_ready s1) (players room)
                 then
                   let s2 = s1\<lparr>rooms := AList.update rid (reset room) (rooms s1)\<rparr>;
                       s3 = fold clear_ready (players room) s2
                   in (s3, updateRoomState rid s3)
                 else (s1, [ToRoomExcept rid sid RematchRequested])
               else (s1, []))"

text \<open>
  \<open>leave-room\<close>: \<open>!player.roomId\<close> is also true of the empty string. The state is
  broadcast before the room is deleted; the list of public rooms is broadcast after,
  whether the room was deleted or not.
\<close>

definition leave_room :: "socket_id \<Rightarrow> server \<Rightarrow> server \<times> emission list" where
  "leave_room sid s =
     (case playersMap s sid of
        None \<Rightarrow> (s, [])
      | Some player \<Rightarrow>
          (case roomId player of
             None \<Rightarrow> (s, [])
           | Some rid \<Rightarrow>
               if rid = [] then (s, [])
               else
                 let (s4, out) =
                       (case map_of (rooms s) rid of
                          None \<Rightarrow> (s, [])
                        | Some room \<Rightarrow>
                            let room1 = removePlayer sid room;
                                s1 = s\<lparr>rooms := AList.update rid room1 (rooms s)\<rparr>;
                                s2 = s1\<lparr>joined := joined s1 - {(sid, rid)}\<rparr>;
                                out1 = updateRoomState rid s2;
                                s3 = (if length (players room1) = 0
                                      then s2\<lparr>rooms := AList.delete rid (rooms s2)\<rparr>
                                      else s2);
                                out2 = (if isPublic room1
                                        then [ToAll (PublicRooms (getPublicRooms s3))]
                                        else [])
                            in (s3, out1 @ out2))
                 in (s4\<lparr>playersMap := (playersMap s4)(sid \<mapsto> player\<lparr>roomId := None\<rparr>)\<rparr>,
                     out)))"

text \<open>
  \<open>disconnect\<close>: socket.io has taken the socket out of every group when the handler
  runs. The list of public rooms is broadcast only in the \<open>else\<close> branch, when the
  room was not deleted. \<open>players.delete\<close> runs in every case.
\<close>

definition disconnect :: "socket_id \<Rightarrow> server \<Rightarrow> server \<times> emission list" where
  "disconnect sid s0 =
     (let s = s0\<lparr>joined := {(c, g). (c, g) \<in> joined s0 \<and> c \<noteq> sid}\<rparr>;
          (s4, out) =
            (case playersMap s sid of
               None \<Rightarrow> (s, [])
             | Some player \<Rightarrow>
                 (case roomId player of
                    None \<Rightarrow> (s, [])
                  | Some rid \<Rightarrow>
                      if rid = [] then (s, [])
                      else
                        (case map_of (rooms s) rid of
                           None \<Rightarrow> (s, [])
                         | Some room \<Rightarrow>
                             let room1 = removePlayer sid room;
                                 s1 = s\<lparr>rooms := AList.update rid room1 (rooms s)\<rparr>;
                                 out1 = updateRoomState rid s1
                             in if length (players room1) = 0
                                then (s1\<lparr>rooms := AList.delete rid (rooms s1)\<rparr>, out1)
                                else (s1, out1 @
                                       (if isPublic room1
                                        then [ToAll (PublicRooms (getPublicRooms s1))]
                                        else [])))))
      in (s4\<lparr>playersMap := (playersMap s4)(sid := None)\<rparr>, out))"

text \<open>The inbound events, each with the socket it arrives on.\<close>

datatype event =
    JoinLobby socket_id string
  | CreateRoom socket_id room_id bool string
  | JoinRoom socket_id room_id string
  | MakeMove socket_id room_id int
  | RequestRematch socket_id room_id
  | LeaveRoom socket_id
  | Disconnect socket_id

fun handle :: "event \<Rightarrow> server \<Rightarrow> server \<times> emission list" where
  "handle (JoinLobby sid playerName) s = join_lobby sid playerName s"
| "handle (CreateRoom sid rid pub playerName) s = create_room sid rid pub playerName s"
| "handle (JoinRoom sid rid playerName) s = join_room sid rid playerName s"
| "handle (MakeMove sid rid index) s = make_move sid rid index s"
| "handle (RequestRematch sid rid) s = request_rematch sid rid s"
| "handle (LeaveRoom sid) s = leave_room sid s"
| "handle (Disconnect sid) s = disconnect sid s"

text \<open>Handlers run to completion, one event after the other.\<close>

fun run :: "event list \<Rightarrow> server \<Rightarrow> server" where
  "run [] s = s"
| "run (e # es) s = run es (fst (handle e s))"

inductive reachable :: "server \<Rightarrow> bool" where
  reachable_init: "reachable init_server"
| reachable_step: "reachable s \<Longrightarrow> reachable (fst (handle e s))"

text \<open>The room states the four operations of a room produce from a new room.\<close>

inductive reachable_room :: "GameRoom \<Rightarrow> bool" where
  room_new: "reachable_room (new_room rid pub creator)"
| room_addPlayer: "reachable_room r \<Longrightarrow> reachable_room (snd (addPlayer sid playerName r))"
| room_removePlayer: "reachable_room r \<Longrightarrow> reachable_room (removePlayer sid r)"
| room_makeMove: "reachable_room r \<Longrightarrow> reachable_room (snd (makeMove index sid r))"
| room_reset: "reachable_room r \<Longrightarrow> reachable_room (reset r)"

section \<open>Properties stated about the rooms\<close>

text \<open>A mark occupies all three cells of a pattern.\<close>

definition occupies :: "mark option list \<Rightarrow> mark \<Rightarrow> int \<times> int \<times> int \<Rightarrow> bool" where
  "occupies bd m p =
     (case p of (a, b, c) \<Rightarrow>
        board_at bd a = Value (Some m) \<and> board_at bd b = Value (Some m) \<and>
        board_at bd c = Value (Some m))"

text \<open>The number of cells of a board that hold a mark.\<close>

definition filled :: "mark option list \<Rightarrow> nat" where
  "filled bd = length (filter (\<lambda>c. c \<noteq> None) bd)"

text \<open>The invariant of the data model, as the specification words it.\<close>

definition room_invariant :: "GameRoom \<Rightarrow> bool" where
  "room_invariant r \<longleftrightarrow>
     (length (players r) = 2 \<longrightarrow> status r = playing \<or> status r = finished) \<and>
     (length (players r) < 2 \<longrightarrow> status r = waiting)"

text \<open>
  The part of it that every operation keeps: at most two players, two players are
  never waiting, and an empty room is waiting.
\<close>

definition room_invariant_kept :: "GameRoom \<Rightarrow> bool" where
  "room_invariant_kept r \<longleftrightarrow>
     length (players r) \<le> 2 \<and>
     (length (players r) = 2 \<longrightarrow> status r = playing \<or> status r = finished) \<and>
     (length (players r) = 0 \<longrightarrow> status r = waiting)"

text \<open>
  What the fields of a room say about each other: nine cells, the stored winner is
  what \<open>checkWinner\<close> computes, and the move count is the number of marks.
\<close>

definition room_sound :: "GameRoom \<Rightarrow> bool" where
  "room_sound r \<longleftrightarrow>
     length (board r) = 9 \<and> winner r = checkWinner r \<and> moves r = filled (board r)"

text \<open>A waiting room holds nobody, or one player, whose mark is X.\<close>

definition waiting_first :: "GameRoom \<Rightarrow> bool" where
  "waiting_first r \<longleftrightarrow>
     (status r = waiting \<longrightarrow> players r = [] \<or> (\<exists>p. players r = [p] \<and> symbol p = MarkX))"

text \<open>
  What holds of a room under its key in the map \<open>rooms\<close>: the key is its id, the room
  operations produced it from a new room, and \<open>waiting_first\<close>.
\<close>

definition registered_ok :: "room_id \<Rightarrow> GameRoom \<Rightarrow> bool" where
  "registered_ok rid r \<longleftrightarrow> ident r = rid \<and> reachable_room r \<and> waiting_first r"

definition rooms_ok :: "server \<Rightarrow> bool" where
  "rooms_ok s \<longleftrightarrow>
     distinct (map fst (rooms s)) \<and>
     (\<forall>rid r. map_of (rooms s) rid = Some r \<longrightarrow> registered_ok rid r)"

section \<open>Example rooms\<close>

text \<open>Two players on two sockets, no move made.\<close>

definition room_ab :: GameRoom where
  "room_ab =
     snd (addPlayer ''b'' ''Bo'' (snd (addPlayer ''a'' ''Al'' (new_room ''R1'' True ''a''))))"

text \<open>The same after X played cell 0.\<close>

definition room_mid :: GameRoom where
  "room_mid = snd (makeMove 0 ''a'' room_ab)"

text \<open>One socket added twice, after X played cell 0.\<close>

definition room_aa :: GameRoom where
  "room_aa =
     snd (makeMove 0 ''a''
       (snd (addPlayer ''a'' ''Al'' (snd (addPlayer ''a'' ''Al'' (new_room ''R1'' True ''a''))))))"

text \<open>Nine moves that fill the board with no line.\<close>

definition room_draw :: GameRoom where
  "room_draw =
     snd (makeMove 8 ''a'' (snd (makeMove 6 ''b'' (snd (makeMove 7 ''a''
       (snd (makeMove 5 ''b'' (snd (makeMove 3 ''a'' (snd (makeMove 4 ''b''
         (snd (makeMove 2 ''a'' (snd (makeMove 1 ''b'' (snd (makeMove 0 ''a''
           room_ab)))))))))))))))))"

text \<open>X wins with the first row at the fifth move.\<close>

definition room_win :: GameRoom where
  "room_win =
     snd (makeMove 2 ''a'' (snd (makeMove 4 ''b'' (snd (makeMove 1 ''a''
       (snd (makeMove 3 ''b'' (snd (makeMove 0 ''a'' room_ab)))))))))"

section \<open>Example runs of the server\<close>

text \<open>Socket a enters the lobby and creates the public room R1.\<close>

definition created_state :: server where
  "created_state =
     run [JoinLobby ''a'' ''Al'', CreateRoom ''a'' ''R1'' True ''Al''] init_server"

text \<open>
  Sockets a and b play in room R1 until X wins; a asks for a rematch, b does not
  answer, and a leaves the room.
\<close>

definition first_game :: "event list" where
  "first_game =
     [JoinLobby ''a'' ''Al'', JoinLobby ''b'' ''Bo'', JoinLobby ''c'' ''Cy'',
      CreateRoom ''a'' ''R1'' False ''Al'', JoinRoom ''b'' ''R1'' ''Bo'',
      MakeMove ''a'' ''R1'' 0, MakeMove ''b'' ''R1'' 3, MakeMove ''a'' ''R1'' 1,
      MakeMove ''b'' ''R1'' 4, MakeMove ''a'' ''R1'' 2,
      RequestRematch ''a'' ''R1'', LeaveRoom ''a'']"

text \<open>Socket a creates room R2, socket c joins, and they play until X wins.\<close>

definition second_game :: "event list" where
  "second_game =
     [CreateRoom ''a'' ''R2'' False ''Al'', JoinRoom ''c'' ''R2'' ''Cy'',
      MakeMove ''a'' ''R2'' 0, MakeMove ''c'' ''R2'' 3, MakeMove ''a'' ''R2'' 1,
      MakeMove ''c'' ''R2'' 4, MakeMove ''a'' ''R2'' 2]"

definition stale_state :: server where
  "stale_state = run (first_game @ second_game) init_server"

section \<open>Evaluating the examples\<close>

lemma replicate_nine: "replicate 9 x = [x, x, x, x, x, x, x, x, x]"
  by (simp add: numeral_eq_Suc)

lemma room_ab_eq:
  "room_ab =
     \<lparr>ident = ''R1'', isPublic = True, creatorId = ''a'',
      players = [\<lparr>socketId = ''a'', name = ''Al'', symbol = MarkX\<rparr>,
                 \<lparr>socketId = ''b'', name = ''Bo'', symbol = MarkO\<rparr>],
      board = replicate 9 None, currentPlayer = MarkX, status = playing,
      winner = None, moves = 0\<rparr>"
  by (simp add: room_ab_def addPlayer_def new_room_def)

lemma room_mid_eq:
  "room_mid =
     \<lparr>ident = ''R1'', isPublic = True, creatorId = ''a'',
      players = [\<lparr>socketId = ''a'', name = ''Al'', symbol = MarkX\<rparr>,
                 \<lparr>socketId = ''b'', name = ''Bo'', symbol = MarkO\<rparr>],
      board = [Some MarkX, None, None, None, None, None, None, None, None],
      currentPlayer = MarkO, status = playing, winner = None, moves = 1\<rparr>"
  by (simp add: room_mid_def room_ab_eq makeMove_def board_at_def checkWinner_def
      winPatterns_def pattern_hit_def replicate_nine)

lemma room_aa_eq:
  "room_aa =
     \<lparr>ident = ''R1'', isPublic = True, creatorId = ''a'',
      players = [\<lparr>socketId = ''a'', name = ''Al'', symbol = MarkX\<rparr>,
                 \<lparr>socketId = ''a'', name = ''Al'', symbol = MarkO\<rparr>],
      board = [Some MarkX, None, None, None, None, None, None, None, None],
      currentPlayer = MarkO, status = playing, winner = None, moves = 1\<rparr>"
  by (simp add: room_aa_def addPlayer_def new_room_def makeMove_def board_at_def
      checkWinner_def winPatterns_def pattern_hit_def replicate_nine)

lemma room_draw_eq:
  "room_draw =
     \<lparr>ident = ''R1'', isPublic = True, creatorId = ''a'',
      players = [\<lparr>socketId = ''a'', name = ''Al'', symbol = MarkX\<rparr>,
                 \<lparr>socketId = ''b'', name = ''Bo'', symbol = MarkO\<rparr>],
      board = [Some MarkX, Some MarkO, Some MarkX,
               Some MarkX, Some MarkO, Some MarkO,
               Some MarkO, Some MarkX, Some MarkX],
      currentPlayer = MarkX, status = finished, winner = None, moves = 9\<rparr>"
  by (simp add: room_draw_def room_ab_eq replicate_nine makeMove_def board_at_def
      checkWinner_def winPatterns_def pattern_hit_def pattern_mark_def)

lemma room_draw_reachable: "reachable_room room_draw"
  unfolding room_draw_def room_ab_def by (intro reachable_room.intros)

lemma room_ab_reachable: "reachable_room room_ab"
  unfolding room_ab_def by (intro reachable_room.intros)

lemma room_win_eq:
  "room_win =
     \<lparr>ident = ''R1'', isPublic = True, creatorId = ''a'',
      players = [\<lparr>socketId = ''a'', name = ''Al'', symbol = MarkX\<rparr>,
                 \<lparr>socketId = ''b'', name = ''Bo'', symbol = MarkO\<rparr>],
      board = [Some MarkX, Some MarkX, Some MarkX,
               Some MarkO, Some MarkO, None,
               None, None, None],
      currentPlayer = MarkX, status = finished, winner = Some MarkX, moves = 5\<rparr>"
  by (simp add: room_win_def room_ab_eq replicate_nine makeMove_def board_at_def
      checkWinner_def winPatterns_def pattern_hit_def pattern_mark_def)

lemmas eval_defs = init_server_def join_lobby_def create_room_def join_room_def make_move_def
  request_rematch_def leave_room_def disconnect_def bind_room_def updateRoomState_def
  getPublicRooms_def getPublicInfo_def room_state_def is_ready_def clear_ready_def
  addPlayer_def removePlayer_def reset_def makeMove_def checkWinner_def winPatterns_def
  pattern_hit_def pattern_mark_def board_at_def new_room_def status_string_def
  replicate_nine Let_def

lemma created_rooms:
  "rooms created_state =
     [(''R1'', \<lparr>ident = ''R1'', isPublic = True, creatorId = ''a'',
        players = [\<lparr>socketId = ''a'', name = ''Al'', symbol = MarkX\<rparr>],
        board = replicate 9 None, currentPlayer = MarkX, status = waiting,
        winner = None, moves = 0\<rparr>)]"
  by (simp add: created_state_def eval_defs)

lemma created_player:
  "playersMap created_state ''a'' =
     Some \<lparr>lobby_name = ''Al'', roomId = Some ''R1'', readyForRematch = False\<rparr>"
  by (simp add: created_state_def eval_defs)

lemma stale_rooms:
  "rooms stale_state =
     [(''R1'', \<lparr>ident = ''R1'', isPublic = False, creatorId = ''a'',
        players = [\<lparr>socketId = ''b'', name = ''Bo'', symbol = MarkO\<rparr>],
        board = [Some MarkX, Some MarkX, Some MarkX, Some MarkO, Some MarkO, None,
                 None, None, None],
        currentPlayer = MarkX, status = finished, winner = Some MarkX, moves = 5\<rparr>),
      (''R2'', \<lparr>ident = ''R2'', isPublic = False, creatorId = ''a'',
        players = [\<lparr>socketId = ''a'', name = ''Al'', symbol = MarkX\<rparr>,
                   \<lparr>socketId = ''c'', name = ''Cy'', symbol = MarkO\<rparr>],
        board = [Some MarkX, Some MarkX, Some MarkX, Some MarkO, Some MarkO, None,
                 None, None, None],
        currentPlayer = MarkX, status = finished, winner = Some MarkX, moves = 5\<rparr>)]"
  by (simp add: stale_state_def first_game_def second_game_def eval_defs)

lemma stale_players:
  "playersMap stale_state ''a'' =
     Some \<lparr>lobby_name = ''Al'', roomId = Some ''R2'', readyForRematch = True\<rparr>"
  "playersMap stale_state ''c'' =
     Some \<lparr>lobby_name = ''Cy'', roomId = Some ''R2'', readyForRematch = False\<rparr>"
  by (simp_all add: stale_state_def first_game_def second_game_def eval_defs)

lemma reachable_run: "reachable s \<Longrightarrow> reachable (run es s)"
  by (induction es arbitrary: s) (simp_all add: reachable_step)

lemma created_reachable: "reachable created_state"
  unfolding created_state_def by (intro reachable_run reachable_init)

section \<open>addPlayer\<close>

text \<open>
  C6: a call on a room that already has two players returns false and changes nothing.
  A call on a room with fewer returns true and appends one entry, with mark X when the
  list was empty and mark O when it held one entry; the status becomes playing when the
  list reaches two entries and is left as it was otherwise. Nothing else changes.
\<close>

theorem addPlayer_capacity_marks:
  "(length (players r) \<ge> 2 \<longrightarrow> addPlayer sid nm r = (False, r)) \<and>
   (length (players r) < 2 \<longrightarrow>
      addPlayer sid nm r =
        (True, r\<lparr>players := players r @
                    [\<lparr>socketId = sid, name = nm,
                      symbol = (if length (players r) = 0 then MarkX else MarkO)\<rparr>],
                  status := (if length (players r) = 1 then playing else status r)\<rparr>))"
  by (auto simp: addPlayer_def Let_def)

text \<open>A third call on the full room, and the first call on a new room.\<close>

theorem addPlayer_capacity_marks_witness:
  "addPlayer ''c'' ''Cy'' room_ab = (False, room_ab) \<and>
   addPlayer ''a'' ''Al'' (new_room ''R1'' True ''a'') =
     (True, (new_room ''R1'' True ''a'')
        \<lparr>players := [\<lparr>socketId = ''a'', name = ''Al'', symbol = MarkX\<rparr>]\<rparr>)"
  using addPlayer_capacity_marks [of room_ab "''c''" "''Cy''"]
        addPlayer_capacity_marks [of "new_room ''R1'' True ''a''" "''a''" "''Al''"]
  by (simp add: room_ab_eq new_room_def)

section \<open>removePlayer\<close>

text \<open>
  C7, amended: \<open>removePlayer\<close> keeps exactly the entries of other sockets. On a room
  with two players of which one at least is on another socket, the board, status, move
  count, turn and winner are unchanged. When no entry is left, the status is waiting
  and board, turn, winner and move count are reset.
\<close>

theorem removePlayer_frame:
  "players (removePlayer sid r) = filter (\<lambda>p. socketId p \<noteq> sid) (players r) \<and>
   (length (players r) = 2 \<and> (\<exists>p \<in> set (players r). socketId p \<noteq> sid) \<longrightarrow>
      board (removePlayer sid r) = board r \<and> status (removePlayer sid r) = status r \<and>
      moves (removePlayer sid r) = moves r \<and>
      currentPlayer (removePlayer sid r) = currentPlayer r \<and>
      winner (removePlayer sid r) = winner r) \<and>
   (length (players (removePlayer sid r)) = 0 \<longrightarrow>
      status (removePlayer sid r) = waiting \<and>
      board (removePlayer sid r) = replicate 9 None \<and>
      currentPlayer (removePlayer sid r) = MarkX \<and> winner (removePlayer sid r) = None \<and>
      moves (removePlayer sid r) = 0)"
  by (auto simp: removePlayer_def reset_def Let_def filter_empty_conv)

text \<open>One of two players leaves after a move, then the other.\<close>

theorem removePlayer_frame_witness:
  "length (players room_mid) = 2 \<and>
   players (removePlayer ''a'' room_mid) = [\<lparr>socketId = ''b'', name = ''Bo'', symbol = MarkO\<rparr>] \<and>
   board (removePlayer ''a'' room_mid) = board room_mid \<and>
   status (removePlayer ''a'' room_mid) = playing \<and>
   moves (removePlayer ''a'' room_mid) = 1 \<and>
   players (removePlayer ''b'' (removePlayer ''a'' room_mid)) = [] \<and>
   status (removePlayer ''b'' (removePlayer ''a'' room_mid)) = waiting \<and>
   moves (removePlayer ''b'' (removePlayer ''a'' room_mid)) = 0"
  using removePlayer_frame [of "''a''" room_mid]
        removePlayer_frame [of "''b''" "removePlayer ''a'' room_mid"]
  by (simp add: room_mid_eq)

text \<open>
  Both entries of a room can be on one socket. Removing that socket from the room
  with two players empties it, and the board, status, move count and turn change.
\<close>

theorem removePlayer_two_players_counterexample:
  "length (players room_aa) = 2 \<and>
   board (removePlayer ''a'' room_aa) \<noteq> board room_aa \<and>
   status (removePlayer ''a'' room_aa) \<noteq> status room_aa \<and>
   moves (removePlayer ''a'' room_aa) \<noteq> moves room_aa \<and>
   currentPlayer (removePlayer ''a'' room_aa) \<noteq> currentPlayer room_aa"
  by (simp add: room_aa_eq removePlayer_def reset_def replicate_nine)

section \<open>makeMove\<close>

lemma board_at_Value_None:
  "board_at bd i = Value None \<longleftrightarrow> 0 \<le> i \<and> i < int (length bd) \<and> bd ! nat i = None"
  by (auto simp: board_at_def)

lemma makeMove_fail: "\<not> fst (makeMove i sid r) \<Longrightarrow> snd (makeMove i sid r) = r"
  by (auto simp: makeMove_def Let_def split: option.splits if_splits)

lemma makeMove_success_iff:
  "fst (makeMove i sid r) \<longleftrightarrow>
     status r = playing \<and> board_at (board r) i = Value None \<and>
     (\<exists>p. find (\<lambda>p. socketId p = sid) (players r) = Some p \<and> symbol p = currentPlayer r)"
  by (simp add: makeMove_def Let_def split: option.splits)

lemma makeMove_players: "players (snd (makeMove i sid r)) = players r"
  by (simp add: makeMove_def Let_def split: option.splits)

lemma makeMove_status:
  "status (snd (makeMove i sid r)) = status r \<or>
   (status r = playing \<and> status (snd (makeMove i sid r)) = finished)"
  by (simp add: makeMove_def Let_def split: option.splits)

text \<open>Where the socket ids of a list are distinct, the first match is the only one.\<close>

lemma find_distinct_ids:
  assumes "distinct (map socketId ps)"
  shows "(\<exists>p. find (\<lambda>p. socketId p = sid) ps = Some p \<and> symbol p = m) \<longleftrightarrow>
         (\<exists>p \<in> set ps. socketId p = sid \<and> symbol p = m)"
  using assms
proof (induction ps)
  case Nil
  then show ?case by simp
next
  case (Cons a ps)
  show ?case
  proof (cases "socketId a = sid")
    case True
    from Cons.prems have "socketId a \<notin> socketId ` set ps" by simp
    then have "\<forall>p \<in> set ps. socketId p \<noteq> socketId a" by (auto simp: image_iff)
    with True have "\<forall>p \<in> set ps. socketId p \<noteq> sid" by simp
    with True show ?thesis by auto
  next
    case False
    with Cons show ?thesis by auto
  qed
qed

text \<open>
  C1, amended: on a board of nine cells, \<open>makeMove\<close> returns true if and only if the
  status is playing, the index is one of 0..8 and its cell is empty, and the first
  player entry with the socket id exists and has the mark whose turn it is. A call
  that returns false leaves the whole room as it was, and so does every call with an
  index outside 0..8. Where the socket ids of the entries are distinct, "the first
  entry with the socket id" is the same as "some entry with the socket id".
\<close>

theorem makeMove_legality:
  assumes "length (board r) = 9"
  shows "(fst (makeMove index sid r) \<longleftrightarrow>
            status r = playing \<and> 0 \<le> index \<and> index \<le> 8 \<and> board r ! nat index = None \<and>
            (\<exists>p. find (\<lambda>p. socketId p = sid) (players r) = Some p \<and>
                 symbol p = currentPlayer r)) \<and>
         (\<not> fst (makeMove index sid r) \<longrightarrow> snd (makeMove index sid r) = r) \<and>
         (index < 0 \<or> 8 < index \<longrightarrow> makeMove index sid r = (False, r)) \<and>
         (distinct (map socketId (players r)) \<longrightarrow>
            (fst (makeMove index sid r) \<longleftrightarrow>
               status r = playing \<and> 0 \<le> index \<and> index \<le> 8 \<and>
               board r ! nat index = None \<and>
               (\<exists>p \<in> set (players r). socketId p = sid \<and> symbol p = currentPlayer r)))"
proof -
  have cell: "board_at (board r) index = Value None \<longleftrightarrow>
      0 \<le> index \<and> index \<le> 8 \<and> board r ! nat index = None"
    using assms by (auto simp: board_at_Value_None)
  have ok: "fst (makeMove index sid r) \<longleftrightarrow>
      status r = playing \<and> 0 \<le> index \<and> index \<le> 8 \<and> board r ! nat index = None \<and>
      (\<exists>p. find (\<lambda>p. socketId p = sid) (players r) = Some p \<and> symbol p = currentPlayer r)"
    unfolding makeMove_success_iff cell by blast
  have fail: "\<not> fst (makeMove index sid r) \<longrightarrow> snd (makeMove index sid r) = r"
    by (simp add: makeMove_fail)
  have out: "index < 0 \<or> 8 < index \<longrightarrow> makeMove index sid r = (False, r)"
  proof
    assume "index < 0 \<or> 8 < index"
    with ok have "\<not> fst (makeMove index sid r)" by auto
    with fail show "makeMove index sid r = (False, r)"
      by (simp add: prod_eq_iff)
  qed
  have dist: "distinct (map socketId (players r)) \<longrightarrow>
      (fst (makeMove index sid r) \<longleftrightarrow>
         status r = playing \<and> 0 \<le> index \<and> index \<le> 8 \<and> board r ! nat index = None \<and>
         (\<exists>p \<in> set (players r). socketId p = sid \<and> symbol p = currentPlayer r))"
    unfolding ok by (simp add: find_distinct_ids)
  from ok fail out dist show ?thesis by blast
qed

text \<open>X plays the centre; index 9 is refused; O is refused when it is the turn of X.\<close>

theorem makeMove_legality_witness:
  "length (board room_ab) = 9 \<and> fst (makeMove 4 ''a'' room_ab) \<and>
   makeMove 9 ''a'' room_ab = (False, room_ab) \<and>
   makeMove 4 ''b'' room_ab = (False, room_ab)"
proof -
  have len: "length (board room_ab) = 9" by (simp add: room_ab_eq)
  show ?thesis
    using len makeMove_legality [OF len, of 4 "''a''"] makeMove_legality [OF len, of 9 "''a''"]
      makeMove_legality [OF len, of 4 "''b''"]
    by (simp add: room_ab_eq replicate_nine prod_eq_iff)
qed

text \<open>
  In the room whose two entries are on socket a, it is the turn of O and the second
  entry is on socket a with mark O, yet the move of socket a on the empty cell 1 is
  refused: \<open>find\<close> returns the first entry, which has mark X.
\<close>

theorem makeMove_some_entry_counterexample:
  "status room_aa = playing \<and> length (board room_aa) = 9 \<and> board room_aa ! 1 = None \<and>
   players room_aa ! 1 \<in> set (players room_aa) \<and>
   socketId (players room_aa ! 1) = ''a'' \<and>
   symbol (players room_aa ! 1) = currentPlayer room_aa \<and>
   makeMove 1 ''a'' room_aa = (False, room_aa)"
  by (simp add: room_aa_eq makeMove_def board_at_def)

section \<open>checkWinner\<close>

lemma pattern_hit_iff: "pattern_hit bd p \<longleftrightarrow> (\<exists>m. occupies bd m p)"
  by (cases p) (auto simp: pattern_hit_def occupies_def split: js_read.splits option.splits)

lemma pattern_mark_occupies: "occupies bd m p \<Longrightarrow> pattern_mark bd p = Some m"
  by (cases p) (simp add: pattern_mark_def occupies_def)

lemma occupies_unique: "occupies bd m p \<Longrightarrow> occupies bd m' p \<Longrightarrow> m = m'"
  by (cases p) (simp add: occupies_def)

lemma scan_None_iff: "scan_patterns bd ps = None \<longleftrightarrow> (\<forall>p \<in> set ps. \<not> pattern_hit bd p)"
  by (induction ps) (auto simp: pattern_hit_iff pattern_mark_occupies)

text \<open>The loop returns a mark exactly for the first pattern that some mark occupies.\<close>

lemma scan_Some_iff:
  "scan_patterns bd ps = Some m \<longleftrightarrow>
     (\<exists>pre p post. ps = pre @ p # post \<and> occupies bd m p \<and> (\<forall>q \<in> set pre. \<not> pattern_hit bd q))"
proof (induction ps)
  case Nil
  then show ?case by simp
next
  case (Cons p ps)
  show ?case
  proof (cases "pattern_hit bd p")
    case True
    then obtain m0 where m0: "occupies bd m0 p" by (auto simp: pattern_hit_iff)
    have "scan_patterns bd (p # ps) = Some m0"
      using True m0 by (simp add: pattern_mark_occupies)
    moreover have "(\<exists>pre q post. p # ps = pre @ q # post \<and> occupies bd m q \<and>
        (\<forall>q \<in> set pre. \<not> pattern_hit bd q)) \<longleftrightarrow> m = m0"
    proof
      assume "\<exists>pre q post. p # ps = pre @ q # post \<and> occupies bd m q \<and>
        (\<forall>q \<in> set pre. \<not> pattern_hit bd q)"
      then obtain pre q post where e: "p # ps = pre @ q # post" and o: "occupies bd m q"
        and n: "\<forall>q \<in> set pre. \<not> pattern_hit bd q" by blast
      show "m = m0"
      proof (cases pre)
        case Nil
        with e have "q = p" by simp
        with o m0 show ?thesis by (auto dest: occupies_unique)
      next
        case (Cons a pre')
        with e have "a = p" by simp
        with Cons n True show ?thesis by simp
      qed
    next
      assume "m = m0"
      with m0 have "p # ps = [] @ p # ps \<and> occupies bd m p \<and>
          (\<forall>q \<in> set []. \<not> pattern_hit bd q)"
        by simp
      then show "\<exists>pre q post. p # ps = pre @ q # post \<and> occupies bd m q \<and>
        (\<forall>q \<in> set pre. \<not> pattern_hit bd q)" by blast
    qed
    ultimately show ?thesis by auto
  next
    case False
    have "(\<exists>pre q post. p # ps = pre @ q # post \<and> occupies bd m q \<and>
        (\<forall>q \<in> set pre. \<not> pattern_hit bd q)) \<longleftrightarrow>
      (\<exists>pre q post. ps = pre @ q # post \<and> occupies bd m q \<and>
        (\<forall>q \<in> set pre. \<not> pattern_hit bd q))" (is "?L \<longleftrightarrow> ?R")
    proof
      assume ?L
      then obtain pre q post where e: "p # ps = pre @ q # post" and o: "occupies bd m q"
        and n: "\<forall>q \<in> set pre. \<not> pattern_hit bd q" by blast
      show ?R
      proof (cases pre)
        case Nil
        with e have "q = p" by simp
        with o False show ?thesis by (simp add: pattern_hit_iff)
      next
        case (Cons a pre')
        with e have "ps = pre' @ q # post" by simp
        moreover from Cons n have "\<forall>q \<in> set pre'. \<not> pattern_hit bd q" by simp
        ultimately show ?thesis using o by blast
      qed
    next
      assume ?R
      then obtain pre q post where e: "ps = pre @ q # post" and o: "occupies bd m q"
        and n: "\<forall>q \<in> set pre. \<not> pattern_hit bd q" by blast
      from e have "p # ps = (p # pre) @ q # post" by simp
      moreover from n False have "\<forall>q \<in> set (p # pre). \<not> pattern_hit bd q" by simp
      ultimately show ?L using o by blast
    qed
    with False Cons.IH show ?thesis by simp
  qed
qed

lemma scan_Some_member:
  assumes "scan_patterns bd ps = Some m"
  shows "\<exists>p \<in> set ps. occupies bd m p"
proof -
  from assms obtain pre p post where e: "ps = pre @ p # post" and o: "occupies bd m p"
    unfolding scan_Some_iff by blast
  from e have "p \<in> set ps" by simp
  with o show ?thesis by blast
qed

lemma scan_empty: "scan_patterns (replicate 9 None) winPatterns = None"
  by (simp add: winPatterns_def pattern_hit_def board_at_def)

text \<open>The patterns are the three rows, the three columns and the two diagonals.\<close>

lemma winPatterns_lines:
  "set winPatterns =
     (\<lambda>k. (3 * k, 3 * k + 1, 3 * k + 2)) ` {0, 1, 2} \<union>
     (\<lambda>k. (k, k + 3, k + 6)) ` {0, 1, 2} \<union> {(0, 4, 8), (2, 4, 6)}"
  by (auto simp: winPatterns_def)

lemma winPatterns_eight: "distinct winPatterns \<and> length winPatterns = 8"
  by (simp add: winPatterns_def)

text \<open>
  On any list of cells, also one that no game produces: \<open>checkWinner\<close> returns the
  mark of the first pattern, in the order of the source, that one mark occupies.
\<close>

lemma checkWinner_any_board:
  "(checkWinner r = Some m \<longleftrightarrow>
      (\<exists>pre p post. winPatterns = pre @ p # post \<and> occupies (board r) m p \<and>
         (\<forall>q \<in> set pre. \<forall>m'. \<not> occupies (board r) m' q))) \<and>
   (checkWinner r = Some m \<longrightarrow> (\<exists>p \<in> set winPatterns. occupies (board r) m p)) \<and>
   (checkWinner r = None \<longleftrightarrow> (\<forall>m'. \<forall>p \<in> set winPatterns. \<not> occupies (board r) m' p)) \<and>
   ((\<exists>p \<in> set winPatterns. occupies (board r) m p) \<and>
    (\<forall>m'. m' \<noteq> m \<longrightarrow> (\<forall>p \<in> set winPatterns. \<not> occupies (board r) m' p))
      \<longrightarrow> checkWinner r = Some m)"
proof -
  let ?bd = "board r"
  have first: "checkWinner r = Some m \<longleftrightarrow>
      (\<exists>pre p post. winPatterns = pre @ p # post \<and> occupies ?bd m p \<and>
         (\<forall>q \<in> set pre. \<forall>m'. \<not> occupies ?bd m' q))"
    by (simp add: checkWinner_def scan_Some_iff pattern_hit_iff)
  have some: "checkWinner r = Some m \<longrightarrow> (\<exists>p \<in> set winPatterns. occupies ?bd m p)"
    by (simp add: checkWinner_def scan_Some_member)
  have none: "checkWinner r = None \<longleftrightarrow> (\<forall>m'. \<forall>p \<in> set winPatterns. \<not> occupies ?bd m' p)"
    by (auto simp: checkWinner_def scan_None_iff pattern_hit_iff)
  have only: "(\<exists>p \<in> set winPatterns. occupies ?bd m p) \<and>
    (\<forall>m'. m' \<noteq> m \<longrightarrow> (\<forall>p \<in> set winPatterns. \<not> occupies ?bd m' p))
      \<longrightarrow> checkWinner r = Some m"
  proof
    assume a: "(\<exists>p \<in> set winPatterns. occupies ?bd m p) \<and>
      (\<forall>m'. m' \<noteq> m \<longrightarrow> (\<forall>p \<in> set winPatterns. \<not> occupies ?bd m' p))"
    then have "checkWinner r \<noteq> None" using none by blast
    then obtain m0 where m0: "checkWinner r = Some m0" by auto
    then have "\<exists>p \<in> set winPatterns. occupies ?bd m0 p"
      by (simp add: checkWinner_def scan_Some_member)
    with a have "m0 = m" by blast
    with m0 show "checkWinner r = Some m" by simp
  qed
  from first some none only show ?thesis
    by blast
qed

lemma occupies_empty: "p \<in> set winPatterns \<Longrightarrow> \<not> occupies (replicate 9 None) m p"
  by (auto simp: winPatterns_def occupies_def board_at_def)

lemma board_at_update:
  "board_at (bd[k := v]) a =
     (if 0 \<le> a \<and> a < int (length bd) \<and> nat a = k then Value v else board_at bd a)"
  by (auto simp: board_at_def)

text \<open>A mark written into a cell gives the other mark no line it did not have.\<close>

lemma occupies_update_other:
  assumes "occupies (bd[k := Some c]) m p" and "m \<noteq> c"
  shows "occupies bd m p"
  using assms by (cases p) (auto simp: occupies_def board_at_update split: if_splits)

lemma makeMove_success_board:
  "fst (makeMove i sid r) \<Longrightarrow>
   board (snd (makeMove i sid r)) = (board r)[nat i := Some (currentPlayer r)]"
  by (auto simp: makeMove_def Let_def split: option.splits if_splits)

lemma makeMove_success_turn:
  "fst (makeMove i sid r) \<Longrightarrow>
   scan_patterns ((board r)[nat i := Some (currentPlayer r)]) winPatterns \<noteq> None \<Longrightarrow>
   currentPlayer (snd (makeMove i sid r)) = currentPlayer r"
  by (auto simp: makeMove_def Let_def checkWinner_def split: option.splits if_splits)

text \<open>
  In a room state the operations produce, a mark that holds a line is the mark whose
  turn it is: the move that completes a line ends the game without passing the turn,
  and only the mark whose turn it is can move. So the two marks never both hold a
  line.
\<close>

lemma reachable_room_line:
  assumes "reachable_room r" and "p \<in> set winPatterns" and "occupies (board r) m p"
  shows "currentPlayer r = m"
  using assms
proof (induction arbitrary: m p rule: reachable_room.induct)
  case (room_new rid pub creator)
  then show ?case by (simp add: new_room_def occupies_empty)
next
  case (room_addPlayer r sid playerName)
  then show ?case by (auto simp: addPlayer_def Let_def split: if_splits)
next
  case (room_removePlayer r sid)
  then show ?case
    by (auto simp: removePlayer_def reset_def Let_def occupies_empty split: if_splits)
next
  case (room_makeMove r index sid)
  show ?case
  proof (cases "fst (makeMove index sid r)")
    case False
    then have "snd (makeMove index sid r) = r" by (rule makeMove_fail)
    with room_makeMove show ?thesis by simp
  next
    case True
    let ?bd = "(board r)[nat index := Some (currentPlayer r)]"
    from True room_makeMove.prems have occ: "occupies ?bd m p"
      by (simp add: makeMove_success_board)
    have same: "m = currentPlayer r"
    proof (rule ccontr)
      assume "m \<noteq> currentPlayer r"
      with occ have "occupies (board r) m p" by (rule occupies_update_other)
      with room_makeMove.IH room_makeMove.prems(1) have "currentPlayer r = m" by blast
      with \<open>m \<noteq> currentPlayer r\<close> show False by simp
    qed
    from occ room_makeMove.prems(1) have "scan_patterns ?bd winPatterns \<noteq> None"
      by (auto simp: scan_None_iff pattern_hit_iff)
    with True have "currentPlayer (snd (makeMove index sid r)) = currentPlayer r"
      by (rule makeMove_success_turn)
    with same show ?thesis by simp
  qed
next
  case (room_reset r)
  then show ?case by (simp add: reset_def occupies_empty)
qed

lemma reachable_checkWinner_Some:
  assumes "reachable_room r"
  shows "checkWinner r = Some m \<longleftrightarrow> (\<exists>p \<in> set winPatterns. occupies (board r) m p)"
proof
  assume "checkWinner r = Some m"
  then show "\<exists>p \<in> set winPatterns. occupies (board r) m p"
    by (simp add: checkWinner_def scan_Some_member)
next
  assume line: "\<exists>p \<in> set winPatterns. occupies (board r) m p"
  then have "checkWinner r \<noteq> None"
    by (auto simp: checkWinner_def scan_None_iff pattern_hit_iff)
  then obtain m0 where m0: "checkWinner r = Some m0" by auto
  then obtain q where q: "q \<in> set winPatterns" "occupies (board r) m0 q"
    using scan_Some_member [of "board r" winPatterns m0] by (auto simp: checkWinner_def)
  from line obtain p where p: "p \<in> set winPatterns" "occupies (board r) m p" by blast
  from assms q have "currentPlayer r = m0" by (rule reachable_room_line)
  moreover from assms p have "currentPlayer r = m" by (rule reachable_room_line)
  ultimately show "checkWinner r = Some m" using m0 by simp
qed

lemma checkWinner_None_iff:
  "checkWinner r = None \<longleftrightarrow> (\<forall>m'. \<forall>p \<in> set winPatterns. \<not> occupies (board r) m' p)"
  by (auto simp: checkWinner_def scan_None_iff pattern_hit_iff)

text \<open>
  C2: on every board that the room operations produce from a new room, \<open>checkWinner\<close>
  returns a mark if and only if that mark occupies all three cells of one of the
  patterns, and it returns none exactly when no pattern is occupied by a mark. The
  patterns it goes through are the eight lines: three rows, three columns and two
  diagonals.
\<close>

theorem checkWinner_iff:
  assumes "reachable_room r"
  shows "(checkWinner r = Some m \<longleftrightarrow> (\<exists>p \<in> set winPatterns. occupies (board r) m p)) \<and>
         (checkWinner r = None \<longleftrightarrow>
            (\<forall>m'. \<forall>p \<in> set winPatterns. \<not> occupies (board r) m' p)) \<and>
         set winPatterns =
           (\<lambda>k. (3 * k, 3 * k + 1, 3 * k + 2)) ` {0, 1, 2} \<union>
           (\<lambda>k. (k, k + 3, k + 6)) ` {0, 1, 2} \<union> {(0, 4, 8), (2, 4, 6)} \<and>
         distinct winPatterns \<and> length winPatterns = 8"
  using reachable_checkWinner_Some [OF assms, of m] checkWinner_None_iff [of r]
    winPatterns_lines winPatterns_eight
  by blast

text \<open>The game that X won with the first row, and the game that ended in a draw.\<close>

theorem checkWinner_iff_witness:
  "reachable_room room_win \<and> checkWinner room_win = Some MarkX \<and>
   (0, 1, 2) \<in> set winPatterns \<and> occupies (board room_win) MarkX (0, 1, 2) \<and>
   checkWinner room_win \<noteq> Some MarkO \<and>
   reachable_room room_draw \<and> checkWinner room_draw = None"
proof -
  have w: "reachable_room room_win"
    unfolding room_win_def room_ab_def by (intro reachable_room.intros)
  show ?thesis
    using w room_draw_reachable checkWinner_iff [OF w, of MarkX] checkWinner_iff [OF w, of MarkO]
      checkWinner_iff [OF room_draw_reachable, of MarkX]
    by (simp add: winPatterns_def room_win_eq room_draw_eq occupies_def board_at_def
        checkWinner_def pattern_hit_def pattern_mark_def)
qed

section \<open>The invariant of a room\<close>

lemma inv_new: "room_invariant (new_room rid pub c)"
  by (simp add: room_invariant_def new_room_def)

lemma inv_addPlayer: "room_invariant r \<Longrightarrow> room_invariant (snd (addPlayer sid nm r))"
  by (auto simp: room_invariant_def addPlayer_def Let_def)

lemma inv_makeMove: "room_invariant r \<Longrightarrow> room_invariant (snd (makeMove i sid r))"
  using makeMove_status [of i sid r]
  by (auto simp: room_invariant_def makeMove_players)

lemma inv_reset: "room_invariant (reset r)"
  by (simp add: room_invariant_def reset_def)

lemma kept_new: "room_invariant_kept (new_room rid pub c)"
  by (simp add: room_invariant_kept_def new_room_def)

lemma kept_addPlayer: "room_invariant_kept r \<Longrightarrow> room_invariant_kept (snd (addPlayer sid nm r))"
  by (auto simp: room_invariant_kept_def addPlayer_def Let_def)

lemma kept_makeMove: "room_invariant_kept r \<Longrightarrow> room_invariant_kept (snd (makeMove i sid r))"
  using makeMove_status [of i sid r]
  by (auto simp: room_invariant_kept_def makeMove_players)

lemma kept_reset: "room_invariant_kept r \<Longrightarrow> room_invariant_kept (reset r)"
  by (simp add: room_invariant_kept_def reset_def)

lemma kept_removePlayer: "room_invariant_kept r \<Longrightarrow> room_invariant_kept (removePlayer sid r)"
proof -
  assume inv: "room_invariant_kept r"
  let ?ps = "filter (\<lambda>p. socketId p \<noteq> sid) (players r)"
  show ?thesis
  proof (cases "?ps = []")
    case True
    then show ?thesis
      by (simp add: removePlayer_def reset_def room_invariant_kept_def)
  next
    case False
    have le: "length ?ps \<le> length (players r)"
      by (rule length_filter_le)
    from inv have cap: "length (players r) \<le> 2"
      by (simp add: room_invariant_kept_def)
    from le cap have le2: "length ?ps \<le> 2"
      by linarith
    have st: "status r = playing \<or> status r = finished" if "length ?ps = 2"
    proof -
      from that le cap have "length (players r) = 2" by linarith
      with inv show ?thesis by (simp add: room_invariant_kept_def)
    qed
    have eq: "removePlayer sid r = r\<lparr>players := ?ps\<rparr>"
      using False by (simp add: removePlayer_def)
    show ?thesis
      unfolding eq room_invariant_kept_def using False le2 st by simp
  qed
qed

lemma reachable_room_kept: "reachable_room r \<Longrightarrow> room_invariant_kept r"
  by (induction rule: reachable_room.induct)
     (simp_all add: kept_new kept_addPlayer kept_removePlayer kept_makeMove kept_reset)

text \<open>
  C4, amended: the invariant as the specification words it holds of a new room and is
  preserved by \<open>addPlayer\<close>, \<open>makeMove\<close> and \<open>reset\<close>. What all four operations
  preserve, \<open>removePlayer\<close> included, and what therefore holds of every room state they
  produce from a new room, is: at most two players, two players imply status playing
  or finished, and no player implies status waiting.
\<close>

theorem room_invariant_preserved:
  "room_invariant (new_room rid pub c) \<and>
   (room_invariant r \<longrightarrow>
      room_invariant (snd (addPlayer sid nm r)) \<and>
      room_invariant (snd (makeMove i sid r)) \<and>
      room_invariant (reset r)) \<and>
   room_invariant_kept (new_room rid pub c) \<and>
   (room_invariant_kept r \<longrightarrow>
      room_invariant_kept (snd (addPlayer sid nm r)) \<and>
      room_invariant_kept (removePlayer sid r) \<and>
      room_invariant_kept (snd (makeMove i sid r)) \<and>
      room_invariant_kept (reset r)) \<and>
   (reachable_room r \<longrightarrow> room_invariant_kept r)"
  by (simp add: inv_new inv_addPlayer inv_makeMove inv_reset kept_new kept_addPlayer
      kept_removePlayer kept_makeMove kept_reset reachable_room_kept)

text \<open>The room of two players, a move in it, and the departure of one.\<close>

theorem room_invariant_preserved_witness:
  "room_invariant room_ab \<and> room_invariant (snd (makeMove 0 ''a'' room_ab)) \<and>
   room_invariant_kept room_ab \<and> room_invariant_kept (removePlayer ''a'' room_ab) \<and>
   reachable_room room_ab \<and>
   length (players (removePlayer ''a'' room_ab)) = 1 \<and>
   status (removePlayer ''a'' room_ab) = playing"
proof -
  have a: "room_invariant room_ab"
    by (simp add: room_ab_eq room_invariant_def)
  have b: "room_invariant_kept room_ab"
    by (simp add: room_ab_eq room_invariant_kept_def)
  have c: "length (players (removePlayer ''a'' room_ab)) = 1 \<and>
      status (removePlayer ''a'' room_ab) = playing"
    by (simp add: room_ab_eq removePlayer_def)
  show ?thesis
    using a b c room_ab_reachable
      room_invariant_preserved [of "''R1''" True "''a''" room_ab "''a''" "''Al''" 0]
    by simp
qed

text \<open>
  \<open>removePlayer\<close> does not preserve the invariant as worded: one of two players
  leaves, and the room has one player and status playing.
\<close>

theorem room_invariant_removePlayer_counterexample:
  "room_invariant room_ab \<and> \<not> room_invariant (removePlayer ''a'' room_ab)"
  by (simp add: room_ab_eq room_invariant_def removePlayer_def)

section \<open>The draw indicator\<close>

lemma filled_update:
  "i < length bd \<Longrightarrow> bd ! i = None \<Longrightarrow> filled (bd[i := Some m]) = Suc (filled bd)"
proof (induction bd arbitrary: i)
  case Nil
  then show ?case by simp
next
  case (Cons c bd)
  then show ?case by (cases i) (simp_all add: filled_def)
qed

lemma filled_le: "filled bd \<le> length bd"
  by (simp add: filled_def)

lemma filled_full: "filled bd = length bd \<longleftrightarrow> None \<notin> set bd"
proof (induction bd)
  case Nil
  then show ?case by (simp add: filled_def)
next
  case (Cons c bd)
  show ?case
  proof (cases c)
    case None
    have "filled (c # bd) = filled bd" using None by (simp add: filled_def)
    with filled_le [of bd] None show ?thesis by simp
  next
    case (Some m)
    have "filled (c # bd) = Suc (filled bd)" using Some by (simp add: filled_def)
    with Cons Some show ?thesis by auto
  qed
qed

lemma checkWinner_fields:
  "checkWinner (r\<lparr>moves := n\<rparr>) = checkWinner r"
  "checkWinner (r\<lparr>winner := w\<rparr>) = checkWinner r"
  "checkWinner (r\<lparr>status := st\<rparr>) = checkWinner r"
  "checkWinner (r\<lparr>currentPlayer := m\<rparr>) = checkWinner r"
  "checkWinner (r\<lparr>players := ps\<rparr>) = checkWinner r"
  by (simp_all add: checkWinner_def)

lemma sound_new: "room_sound (new_room rid pub c)"
  by (simp add: room_sound_def new_room_def checkWinner_def scan_empty filled_def)

lemma sound_reset: "room_sound (reset r)"
  by (simp add: room_sound_def reset_def checkWinner_def scan_empty filled_def)

lemma sound_addPlayer: "room_sound r \<Longrightarrow> room_sound (snd (addPlayer sid nm r))"
  by (simp add: room_sound_def addPlayer_def Let_def checkWinner_def)

lemma sound_removePlayer: "room_sound r \<Longrightarrow> room_sound (removePlayer sid r)"
  by (simp add: room_sound_def removePlayer_def Let_def reset_def checkWinner_def
      scan_empty filled_def)

lemma sound_makeMove:
  assumes "room_sound r"
  shows "room_sound (snd (makeMove i sid r))"
proof (cases "fst (makeMove i sid r)")
  case False
  with assms show ?thesis by (simp add: makeMove_fail)
next
  case True
  then have cell: "board_at (board r) i = Value None"
    by (simp add: makeMove_success_iff)
  then have "nat i < length (board r)" and "board r ! nat i = None"
    by (auto simp: board_at_Value_None)
  then have cnt: "filled ((board r)[nat i := Some (currentPlayer r)]) = Suc (filled (board r))"
    by (rule filled_update)
  from True assms cnt show ?thesis
    by (auto simp: makeMove_def Let_def room_sound_def checkWinner_fields
        split: option.splits if_splits)
qed

lemma reachable_room_sound: "reachable_room r \<Longrightarrow> room_sound r"
  by (induction rule: reachable_room.induct)
     (simp_all add: sound_new sound_addPlayer sound_removePlayer sound_makeMove sound_reset)

text \<open>
  C5: in every room state that the operations produce from a new room, the field
  \<open>isDraw\<close> of the state sent to the clients is true if and only if the move count is
  9 and the winner is null; it is never true together with a winner. In these states
  the winner is what \<open>checkWinner\<close> computes and the move count is the number of marks,
  so \<open>isDraw\<close> says that the board is full and no line is complete.
\<close>

theorem isDraw_iff:
  assumes "reachable_room r"
  shows "(isDraw (room_state r) \<longleftrightarrow> moves r = 9 \<and> winner r = None) \<and>
         \<not> (isDraw (room_state r) \<and> winner r \<noteq> None) \<and>
         (isDraw (room_state r) \<longleftrightarrow> None \<notin> set (board r) \<and> checkWinner r = None)"
proof -
  from assms have s: "room_sound r" by (rule reachable_room_sound)
  then have "moves r = 9 \<longleftrightarrow> filled (board r) = length (board r)"
    by (simp add: room_sound_def)
  then have full: "moves r = 9 \<longleftrightarrow> None \<notin> set (board r)"
    by (simp add: filled_full)
  from s have w: "winner r = checkWinner r" by (simp add: room_sound_def)
  show ?thesis
    using full w by (auto simp: room_state_def)
qed

text \<open>The room after nine moves with no line.\<close>

theorem isDraw_iff_witness:
  "reachable_room room_draw \<and> isDraw (room_state room_draw) \<and> moves room_draw = 9 \<and>
   winner room_draw = None \<and> status room_draw = finished"
  using room_draw_reachable isDraw_iff [OF room_draw_reachable]
  by (simp add: room_draw_eq)

section \<open>What every reachable state of the server satisfies\<close>

lemma ident_ops:
  "ident (snd (addPlayer sid nm r)) = ident r"
  "ident (removePlayer sid r) = ident r"
  "ident (snd (makeMove i sid r)) = ident r"
  "ident (reset r) = ident r"
  by (simp_all add: addPlayer_def removePlayer_def makeMove_def reset_def Let_def
      split: option.splits)

lemma waiting_first_addPlayer:
  "waiting_first r \<Longrightarrow> status r = waiting \<Longrightarrow> waiting_first (snd (addPlayer sid nm r))"
  by (auto simp: waiting_first_def addPlayer_def Let_def)

lemma waiting_first_new: "waiting_first (snd (addPlayer sid nm (new_room rid pub c)))"
  by (simp add: waiting_first_def addPlayer_def new_room_def)

lemma waiting_first_makeMove: "waiting_first r \<Longrightarrow> waiting_first (snd (makeMove i sid r))"
  using makeMove_status [of i sid r] by (auto simp: waiting_first_def makeMove_players)

lemma waiting_first_reset: "length (players r) = 2 \<Longrightarrow> waiting_first (reset r)"
  by (simp add: waiting_first_def reset_def)

lemma waiting_first_removePlayer: "waiting_first r \<Longrightarrow> waiting_first (removePlayer sid r)"
  by (auto simp: waiting_first_def removePlayer_def reset_def Let_def)

lemma rooms_ok_update:
  "rooms_ok s \<Longrightarrow> registered_ok rid r \<Longrightarrow>
   rooms_ok (s\<lparr>rooms := AList.update rid r (rooms s)\<rparr>)"
  by (simp add: rooms_ok_def distinct_update update_conv')

lemma rooms_ok_delete:
  "rooms_ok s \<Longrightarrow> rooms_ok (s\<lparr>rooms := AList.delete rid (rooms s)\<rparr>)"
  by (simp add: rooms_ok_def distinct_delete delete_conv')

lemma rooms_ok_lookup:
  "rooms_ok s \<Longrightarrow> map_of (rooms s) rid = Some r \<Longrightarrow> registered_ok rid r"
  by (simp add: rooms_ok_def)

lemma rooms_ok_fields:
  "rooms_ok (s\<lparr>playersMap := pm\<rparr>) = rooms_ok s"
  "rooms_ok (s\<lparr>joined := j\<rparr>) = rooms_ok s"
  by (simp_all add: rooms_ok_def)

lemma rooms_bind_room: "rooms (bind_room sid rid s) = rooms s"
  by (simp add: bind_room_def split: option.splits)

lemma rooms_ok_bind_room: "rooms_ok (bind_room sid rid s) = rooms_ok s"
  by (simp add: rooms_ok_def rooms_bind_room)

lemma rooms_clear_ready: "rooms (clear_ready p s) = rooms s"
  by (simp add: clear_ready_def split: option.splits)

lemma rooms_fold_clear_ready: "rooms (fold clear_ready ps s) = rooms s"
  by (induction ps arbitrary: s) (simp_all add: rooms_clear_ready)

lemma rooms_ok_fold_clear_ready: "rooms_ok (fold clear_ready ps s) = rooms_ok s"
  by (simp add: rooms_ok_def rooms_fold_clear_ready)

lemma registered_addPlayer:
  "registered_ok rid r \<Longrightarrow> status r = waiting \<Longrightarrow> registered_ok rid (snd (addPlayer sid nm r))"
  by (simp add: registered_ok_def ident_ops waiting_first_addPlayer reachable_room.intros)

lemma ident_new: "ident (new_room rid pub c) = rid"
  by (simp add: new_room_def)

lemma registered_new: "registered_ok rid (snd (addPlayer sid nm (new_room rid pub c)))"
  by (simp add: registered_ok_def ident_ops ident_new waiting_first_new reachable_room.intros)

lemma registered_makeMove: "registered_ok rid r \<Longrightarrow> registered_ok rid (snd (makeMove i sid r))"
  by (simp add: registered_ok_def ident_ops waiting_first_makeMove reachable_room.intros)

lemma registered_reset:
  "registered_ok rid r \<Longrightarrow> length (players r) = 2 \<Longrightarrow> registered_ok rid (reset r)"
  by (simp add: registered_ok_def ident_ops waiting_first_reset reachable_room.intros)

lemma registered_removePlayer: "registered_ok rid r \<Longrightarrow> registered_ok rid (removePlayer sid r)"
  by (simp add: registered_ok_def ident_ops waiting_first_removePlayer reachable_room.intros)

lemma rooms_ok_join_lobby: "rooms_ok s \<Longrightarrow> rooms_ok (fst (join_lobby sid nm s))"
  by (simp add: join_lobby_def Let_def rooms_ok_fields)

lemma rooms_ok_create_room: "rooms_ok s \<Longrightarrow> rooms_ok (fst (create_room sid rid pub nm s))"
  by (simp add: create_room_def Let_def rooms_ok_bind_room rooms_ok_fields rooms_ok_update
      registered_new)

lemma rooms_ok_join_room: "rooms_ok s \<Longrightarrow> rooms_ok (fst (join_room sid rid nm s))"
proof (cases "map_of (rooms s) rid")
  case None
  assume "rooms_ok s"
  with None show ?thesis by (simp add: join_room_def)
next
  case (Some room)
  assume ok: "rooms_ok s"
  then have reg: "registered_ok rid room" using Some by (rule rooms_ok_lookup)
  show ?thesis
  proof (cases "length (players room) \<ge> 2 \<or> status room = playing \<or> status room = finished")
    case True
    with ok Some show ?thesis by (auto simp: join_room_def)
  next
    case False
    then have "status room = waiting" by (cases "status room") auto
    with reg have "registered_ok rid (snd (addPlayer sid nm room))"
      by (rule registered_addPlayer)
    with ok have "rooms_ok (s\<lparr>rooms := AList.update rid (snd (addPlayer sid nm room)) (rooms s)\<rparr>)"
      by (rule rooms_ok_update)
    with False Some show ?thesis
      by (simp add: join_room_def Let_def rooms_ok_bind_room rooms_ok_fields)
  qed
qed

lemma rooms_ok_make_move: "rooms_ok s \<Longrightarrow> rooms_ok (fst (make_move sid rid i s))"
proof (cases "map_of (rooms s) rid")
  case None
  assume "rooms_ok s"
  with None show ?thesis by (simp add: make_move_def)
next
  case (Some room)
  assume ok: "rooms_ok s"
  then have "registered_ok rid room" using Some by (rule rooms_ok_lookup)
  then have "registered_ok rid (snd (makeMove i sid room))" by (rule registered_makeMove)
  with ok have "rooms_ok (s\<lparr>rooms := AList.update rid (snd (makeMove i sid room)) (rooms s)\<rparr>)"
    by (rule rooms_ok_update)
  with Some show ?thesis
    by (cases "makeMove i sid room") (simp add: make_move_def Let_def)
qed

lemma rooms_ok_request_rematch: "rooms_ok s \<Longrightarrow> rooms_ok (fst (request_rematch sid rid s))"
proof (cases "map_of (rooms s) rid")
  case None
  assume "rooms_ok s"
  with None show ?thesis by (simp add: request_rematch_def)
next
  case (Some room)
  assume ok: "rooms_ok s"
  then have reg: "registered_ok rid room" using Some by (rule rooms_ok_lookup)
  let ?s1 = "case playersMap s sid of None \<Rightarrow> s
     | Some player \<Rightarrow> s\<lparr>playersMap := (playersMap s)(sid \<mapsto> player\<lparr>readyForRematch := True\<rparr>)\<rparr>"
  have s1: "rooms_ok ?s1" and r1: "rooms ?s1 = rooms s"
    using ok by (simp_all add: rooms_ok_fields split: option.splits)
  have upd: "rooms_ok (?s1\<lparr>rooms := AList.update rid (reset room) (rooms ?s1)\<rparr>)"
    if "length (players room) = 2"
    using s1 registered_reset [OF reg that] by (rule rooms_ok_update)
  show ?thesis
    using Some ok s1 upd
    by (simp add: request_rematch_def Let_def rooms_ok_fold_clear_ready)
qed

lemma rooms_ok_same: "rooms s' = rooms s \<Longrightarrow> rooms_ok s' = rooms_ok s"
  by (simp add: rooms_ok_def)

lemma rooms_ok_removed:
  assumes "rooms_ok s" and "map_of (rooms s) rid = Some room"
    and "rooms s' = AList.update rid (removePlayer sid room) (rooms s) \<or>
         rooms s' = AList.delete rid (AList.update rid (removePlayer sid room) (rooms s))"
  shows "rooms_ok s'"
proof -
  let ?u = "s\<lparr>rooms := AList.update rid (removePlayer sid room) (rooms s)\<rparr>"
  have reg: "registered_ok rid (removePlayer sid room)"
    using assms(1,2) by (intro registered_removePlayer rooms_ok_lookup)
  with assms(1) have u: "rooms_ok ?u" by (rule rooms_ok_update)
  then have d: "rooms_ok (?u\<lparr>rooms := AList.delete rid (rooms ?u)\<rparr>)" by (rule rooms_ok_delete)
  from assms(3) show ?thesis
  proof
    assume "rooms s' = AList.update rid (removePlayer sid room) (rooms s)"
    then have "rooms s' = rooms ?u" by simp
    then have "rooms_ok s' = rooms_ok ?u" by (rule rooms_ok_same)
    with u show ?thesis by simp
  next
    assume "rooms s' = AList.delete rid (AList.update rid (removePlayer sid room) (rooms s))"
    then have "rooms s' = rooms (?u\<lparr>rooms := AList.delete rid (rooms ?u)\<rparr>)" by simp
    then have "rooms_ok s' = rooms_ok (?u\<lparr>rooms := AList.delete rid (rooms ?u)\<rparr>)"
      by (rule rooms_ok_same)
    with d show ?thesis by simp
  qed
qed

text \<open>What \<open>leave-room\<close> and \<open>disconnect\<close> do to the map of rooms.\<close>

lemma rooms_leave_room:
  "rooms (fst (leave_room sid s)) = rooms s \<or>
   (\<exists>rid room. map_of (rooms s) rid = Some room \<and>
      (rooms (fst (leave_room sid s)) = AList.update rid (removePlayer sid room) (rooms s) \<or>
       rooms (fst (leave_room sid s)) =
         AList.delete rid (AList.update rid (removePlayer sid room) (rooms s))))"
  by (auto simp: leave_room_def Let_def split: option.splits)

lemma rooms_disconnect:
  "rooms (fst (disconnect sid s)) = rooms s \<or>
   (\<exists>rid room. map_of (rooms s) rid = Some room \<and>
      (rooms (fst (disconnect sid s)) = AList.update rid (removePlayer sid room) (rooms s) \<or>
       rooms (fst (disconnect sid s)) =
         AList.delete rid (AList.update rid (removePlayer sid room) (rooms s))))"
  by (auto simp: disconnect_def Let_def split: option.splits)

lemma rooms_ok_leave_room:
  assumes "rooms_ok s"
  shows "rooms_ok (fst (leave_room sid s))"
proof -
  let ?s' = "fst (leave_room sid s)"
  from rooms_leave_room [of sid s] show ?thesis
  proof
    assume "rooms ?s' = rooms s"
    then have "rooms_ok ?s' = rooms_ok s" by (rule rooms_ok_same)
    with assms show ?thesis by simp
  next
    assume "\<exists>rid room. map_of (rooms s) rid = Some room \<and>
      (rooms ?s' = AList.update rid (removePlayer sid room) (rooms s) \<or>
       rooms ?s' = AList.delete rid (AList.update rid (removePlayer sid room) (rooms s)))"
    then obtain rid room where "map_of (rooms s) rid = Some room"
      and "rooms ?s' = AList.update rid (removePlayer sid room) (rooms s) \<or>
           rooms ?s' = AList.delete rid (AList.update rid (removePlayer sid room) (rooms s))"
      by blast
    with assms show ?thesis by (rule rooms_ok_removed)
  qed
qed

lemma rooms_ok_disconnect:
  assumes "rooms_ok s"
  shows "rooms_ok (fst (disconnect sid s))"
proof -
  let ?s' = "fst (disconnect sid s)"
  from rooms_disconnect [of sid s] show ?thesis
  proof
    assume "rooms ?s' = rooms s"
    then have "rooms_ok ?s' = rooms_ok s" by (rule rooms_ok_same)
    with assms show ?thesis by simp
  next
    assume "\<exists>rid room. map_of (rooms s) rid = Some room \<and>
      (rooms ?s' = AList.update rid (removePlayer sid room) (rooms s) \<or>
       rooms ?s' = AList.delete rid (AList.update rid (removePlayer sid room) (rooms s)))"
    then obtain rid room where "map_of (rooms s) rid = Some room"
      and "rooms ?s' = AList.update rid (removePlayer sid room) (rooms s) \<or>
           rooms ?s' = AList.delete rid (AList.update rid (removePlayer sid room) (rooms s))"
      by blast
    with assms show ?thesis by (rule rooms_ok_removed)
  qed
qed

lemma rooms_ok_handle: "rooms_ok s \<Longrightarrow> rooms_ok (fst (handle e s))"
  by (cases e)
     (simp_all add: rooms_ok_join_lobby rooms_ok_create_room rooms_ok_join_room
        rooms_ok_make_move rooms_ok_request_rematch rooms_ok_leave_room rooms_ok_disconnect)

lemma reachable_rooms_ok: "reachable s \<Longrightarrow> rooms_ok s"
proof (induction rule: reachable.induct)
  case reachable_init
  show ?case by (simp add: rooms_ok_def init_server_def)
next
  case (reachable_step s e)
  then show ?case by (simp add: rooms_ok_handle)
qed

text \<open>Every room of a reachable state is a room state the room operations produce.\<close>

lemma reachable_registered_room:
  assumes "reachable s" and "map_of (rooms s) rid = Some room"
  shows "reachable_room room"
  using rooms_ok_lookup [OF reachable_rooms_ok [OF assms(1)] assms(2)]
  by (simp add: registered_ok_def)

text \<open>So in every room of a reachable state the winner found is the mark with a line.\<close>

lemma registered_checkWinner_Some:
  assumes "reachable s" and "map_of (rooms s) rid = Some room"
  shows "checkWinner room = Some m \<longleftrightarrow> (\<exists>p \<in> set winPatterns. occupies (board room) m p)"
  using reachable_registered_room [OF assms] by (rule reachable_checkWinner_Some)

lemma reachable_waiting_first:
  assumes "reachable s" and "map_of (rooms s) rid = Some room"
  shows "waiting_first room"
  using rooms_ok_lookup [OF reachable_rooms_ok [OF assms(1)] assms(2)]
  by (simp add: registered_ok_def)

section \<open>Joining a room twice from one socket\<close>

text \<open>
  C10: in every reachable state and for every room in it that is waiting with one
  player, a \<open>join-room\<close> from the socket of that player succeeds: \<open>addPlayer\<close> returns
  true, the caller gets \<open>room-joined\<close> and no error, and the room then has two
  entries with the same socket id, the first with mark X and the second with mark O,
  and status playing.
\<close>

theorem join_room_same_connection:
  assumes "reachable s" and "map_of (rooms s) rid = Some room"
    and "status room = waiting" and "players room = [p]" and "socketId p = sid"
  shows "symbol p = MarkX \<and>
         addPlayer sid nm room =
           (True, room\<lparr>players := [p, \<lparr>socketId = sid, name = nm, symbol = MarkO\<rparr>],
                        status := playing\<rparr>) \<and>
         map_of (rooms (fst (join_room sid rid nm s))) rid =
           Some (room\<lparr>players := [p, \<lparr>socketId = sid, name = nm, symbol = MarkO\<rparr>],
                       status := playing\<rparr>) \<and>
         snd (join_room sid rid nm s) =
           [ToSocket sid (RoomJoined rid),
            ToRoom rid (GameState (room_state
              (room\<lparr>players := [p, \<lparr>socketId = sid, name = nm, symbol = MarkO\<rparr>],
                     status := playing\<rparr>)))]
           @ (if isPublic room
              then [ToAll (PublicRooms (getPublicRooms (fst (join_room sid rid nm s))))]
              else [])"
proof -
  from assms(1,2) have "waiting_first room" by (rule reachable_waiting_first)
  with assms(3,4) have x: "symbol p = MarkX" by (simp add: waiting_first_def)
  have add: "addPlayer sid nm room =
      (True, room\<lparr>players := [p, \<lparr>socketId = sid, name = nm, symbol = MarkO\<rparr>],
                   status := playing\<rparr>)"
    using assms(4) by (simp add: addPlayer_def)
  have look: "map_of (rooms (fst (join_room sid rid nm s))) rid =
      Some (room\<lparr>players := [p, \<lparr>socketId = sid, name = nm, symbol = MarkO\<rparr>],
                  status := playing\<rparr>)"
    using assms(2,3,4)
    by (simp add: join_room_def add Let_def rooms_bind_room update_conv')
  have out: "snd (join_room sid rid nm s) =
      [ToSocket sid (RoomJoined rid),
       ToRoom rid (GameState (room_state
         (room\<lparr>players := [p, \<lparr>socketId = sid, name = nm, symbol = MarkO\<rparr>],
                status := playing\<rparr>)))]
      @ (if isPublic room
         then [ToAll (PublicRooms (getPublicRooms (fst (join_room sid rid nm s))))]
         else [])"
    using assms(2,3,4)
    by (simp add: join_room_def add Let_def rooms_bind_room update_conv' updateRoomState_def)
  from x add look out show ?thesis by blast
qed

text \<open>The creator of the public room R1 joins it.\<close>

theorem join_room_same_connection_witness:
  "reachable created_state \<and>
   map_of (rooms (fst (join_room ''a'' ''R1'' ''Al'' created_state))) ''R1'' =
     Some \<lparr>ident = ''R1'', isPublic = True, creatorId = ''a'',
        players = [\<lparr>socketId = ''a'', name = ''Al'', symbol = MarkX\<rparr>,
                   \<lparr>socketId = ''a'', name = ''Al'', symbol = MarkO\<rparr>],
        board = replicate 9 None, currentPlayer = MarkX, status = playing,
        winner = None, moves = 0\<rparr>"
proof -
  let ?room = "\<lparr>ident = ''R1'', isPublic = True, creatorId = ''a'',
        players = [\<lparr>socketId = ''a'', name = ''Al'', symbol = MarkX\<rparr>],
        board = replicate 9 None, currentPlayer = MarkX, status = waiting,
        winner = None, moves = 0\<rparr>"
  have look: "map_of (rooms created_state) ''R1'' = Some ?room"
    by (simp add: created_rooms)
  have st: "status ?room = waiting" by simp
  have ps: "players ?room = [\<lparr>socketId = ''a'', name = ''Al'', symbol = MarkX\<rparr>]" by simp
  have sid: "socketId \<lparr>socketId = ''a'', name = ''Al'', symbol = MarkX\<rparr> = ''a''" by simp
  show ?thesis
    using created_reachable
      join_room_same_connection [OF created_reachable look st ps sid, of "''Al''"]
    by simp
qed

section \<open>The list of public rooms\<close>

lemma getPublicInfo_keys:
  "map fst (getPublicInfo r) = [''id'', ''isPublic'', ''playersCount'', ''status'']"
  by (simp add: getPublicInfo_def)

lemma getPublicRooms_set:
  "set (getPublicRooms s) =
     getPublicInfo ` {r \<in> snd ` set (rooms s). isPublic r \<and> status r = waiting}"
  by (auto simp: getPublicRooms_def)

lemma getPublicRooms_length:
  "length (getPublicRooms s) =
     length (filter (\<lambda>e. isPublic (snd e) \<and> status (snd e) = waiting) (rooms s))"
proof -
  have "length (filter P (map snd xs)) = length (filter (\<lambda>e. P (snd e)) xs)"
    for P :: "GameRoom \<Rightarrow> bool" and xs :: "(room_id \<times> GameRoom) list"
    by (induction xs) simp_all
  then show ?thesis by (simp add: getPublicRooms_def)
qed

lemma reachable_registered:
  assumes "reachable s"
  shows "r \<in> snd ` set (rooms s) \<longleftrightarrow> (\<exists>rid. map_of (rooms s) rid = Some r)"
proof -
  from assms have "distinct (map fst (rooms s))"
    using reachable_rooms_ok by (simp add: rooms_ok_def)
  then have "map_of (rooms s) rid = Some r \<longleftrightarrow> (rid, r) \<in> set (rooms s)" for rid
    by (rule map_of_eq_Some_iff)
  then show ?thesis by force
qed

text \<open>
  C8, amended: \<open>getPublicRooms\<close> returns, once for each entry of the map of rooms
  whose room is public and waiting, the object \<open>getPublicInfo\<close> makes of that room, and
  nothing else; in a reachable state these are exactly the rooms registered under
  their own id that are public and waiting. The object has the four keys id, isPublic,
  playersCount and status, in this order, so it has no key for the board, and the
  count of players is under the key playersCount.
\<close>

theorem getPublicRooms_exact:
  "set (getPublicRooms s) =
     getPublicInfo ` {r \<in> snd ` set (rooms s). isPublic r \<and> status r = waiting} \<and>
   length (getPublicRooms s) =
     length (filter (\<lambda>e. isPublic (snd e) \<and> status (snd e) = waiting) (rooms s)) \<and>
   (reachable s \<longrightarrow>
      (\<forall>obj. obj \<in> set (getPublicRooms s) \<longleftrightarrow>
         (\<exists>rid r. map_of (rooms s) rid = Some r \<and> ident r = rid \<and> isPublic r \<and>
                  status r = waiting \<and> obj = getPublicInfo r))) \<and>
   (\<forall>obj \<in> set (getPublicRooms s).
      map fst obj = [''id'', ''isPublic'', ''playersCount'', ''status'']) \<and>
   getPublicInfo r =
     [(''id'', JStr (ident r)), (''isPublic'', JBool (isPublic r)),
      (''playersCount'', JNum (length (players r))),
      (''status'', JStr (status_string (status r)))]"
proof -
  have keys: "\<forall>obj \<in> set (getPublicRooms s).
      map fst obj = [''id'', ''isPublic'', ''playersCount'', ''status'']"
    by (auto simp: getPublicRooms_set getPublicInfo_keys)
  have reach: "reachable s \<longrightarrow>
      (\<forall>obj. obj \<in> set (getPublicRooms s) \<longleftrightarrow>
         (\<exists>rid r. map_of (rooms s) rid = Some r \<and> ident r = rid \<and> isPublic r \<and>
                  status r = waiting \<and> obj = getPublicInfo r))"
  proof (intro impI allI)
    fix obj
    assume re: "reachable s"
    then have ok: "rooms_ok s" by (rule reachable_rooms_ok)
    show "obj \<in> set (getPublicRooms s) \<longleftrightarrow>
         (\<exists>rid r. map_of (rooms s) rid = Some r \<and> ident r = rid \<and> isPublic r \<and>
                  status r = waiting \<and> obj = getPublicInfo r)" (is "?L \<longleftrightarrow> ?R")
    proof
      assume ?L
      then obtain r where r: "r \<in> snd ` set (rooms s)" "isPublic r" "status r = waiting"
        and obj: "obj = getPublicInfo r"
        by (auto simp: getPublicRooms_set)
      from r(1) obtain rid where look: "map_of (rooms s) rid = Some r"
        using reachable_registered [OF re] by blast
      with ok have "ident r = rid"
        using rooms_ok_lookup by (simp add: registered_ok_def)
      with look r obj show ?R by blast
    next
      assume ?R
      then obtain rid r where look: "map_of (rooms s) rid = Some r"
        and r: "isPublic r" "status r = waiting" and obj: "obj = getPublicInfo r"
        by blast
      from look have "r \<in> snd ` set (rooms s)"
        using reachable_registered [OF re] by blast
      with r obj show ?L by (simp add: getPublicRooms_set)
    qed
  qed
  from keys reach getPublicRooms_set [of s] getPublicRooms_length [of s]
  show ?thesis by (simp add: getPublicInfo_def)
qed

text \<open>The room R1 is listed while its creator waits, and no longer once b has joined.\<close>

theorem getPublicRooms_exact_witness:
  "reachable created_state \<and>
   getPublicRooms created_state =
     [[(''id'', JStr ''R1''), (''isPublic'', JBool True), (''playersCount'', JNum 1),
       (''status'', JStr ''waiting'')]] \<and>
   getPublicRooms (fst (join_room ''b'' ''R1'' ''Bo'' created_state)) = []"
  using created_reachable getPublicRooms_exact [of created_state]
  by (simp add: created_rooms getPublicRooms_def getPublicInfo_def status_string_def
      join_room_def addPlayer_def rooms_bind_room Let_def)

text \<open>The object has no key playerCount; the count is under playersCount.\<close>

theorem getPublicInfo_playerCount_counterexample:
  "map_of (getPublicInfo room_ab) ''playerCount'' = None \<and>
   map_of (getPublicInfo room_ab) ''playersCount'' = Some (JNum 2)"
  by (simp add: getPublicInfo_def room_ab_eq)

section \<open>Leaving a room and disconnecting\<close>

text \<open>
  The two handlers leave the same map of rooms. They send the same, except when the
  room is public and the departure empties it: then \<open>leave-room\<close> sends the list of
  public rooms to every connection after the state of the room, and \<open>disconnect\<close>
  does not.
\<close>

lemma getPublicRooms_same: "rooms s' = rooms s \<Longrightarrow> getPublicRooms s' = getPublicRooms s"
  by (simp add: getPublicRooms_def)

lemma updateRoomState_same:
  "rooms s' = rooms s \<Longrightarrow> updateRoomState rid s' = updateRoomState rid s"
  by (simp add: updateRoomState_def)

lemma disconnect_leave_room:
  "rooms (fst (disconnect sid s)) = rooms (fst (leave_room sid s)) \<and>
   (snd (leave_room sid s) = snd (disconnect sid s) \<or>
    (\<exists>player rid room.
       playersMap s sid = Some player \<and> roomId player = Some rid \<and>
       map_of (rooms s) rid = Some room \<and> isPublic room \<and>
       players (removePlayer sid room) = [] \<and>
       snd (leave_room sid s) =
         snd (disconnect sid s) @
           [ToAll (PublicRooms (getPublicRooms (fst (leave_room sid s))))]))"
proof (cases "playersMap s sid")
  case None
  then show ?thesis by (simp add: leave_room_def disconnect_def)
next
  case (Some player)
  note pl = Some
  show ?thesis
  proof (cases "roomId player")
    case None
    with pl show ?thesis by (simp add: leave_room_def disconnect_def)
  next
    case (Some rid)
    note ri = Some
    show ?thesis
    proof (cases "rid = [] \<or> map_of (rooms s) rid = None")
      case True
      with pl ri show ?thesis by (auto simp: leave_room_def disconnect_def)
    next
      case False
      then obtain room where ro: "map_of (rooms s) rid = Some room" and ne: "rid \<noteq> []"
        by auto
      have pub: "isPublic (removePlayer sid room) = isPublic room"
        by (simp add: removePlayer_def reset_def Let_def)
      show ?thesis
      proof (cases "players (removePlayer sid room) = []")
        case True
        with pl ri ro ne pub show ?thesis
          by (simp add: leave_room_def disconnect_def Let_def updateRoomState_def
              getPublicRooms_def update_conv')
      next
        case False
        with pl ri ro ne pub show ?thesis
          by (simp add: leave_room_def disconnect_def Let_def updateRoomState_def
              getPublicRooms_def update_conv')
      qed
    qed
  qed
qed

text \<open>
  C9: \<open>disconnect\<close> is to do the room cleanup of \<open>leave-room\<close> and to send the same
  broadcasts, the list of public rooms included when the departure empties and
  deletes a public room. The code does the cleanup and does not send that list.
  Socket a waits alone in the public room R1, which the lobby lists. When a leaves,
  the room is deleted and every connection gets the new, empty list of public rooms.
  When a disconnects, the room is deleted and no list is sent: the \<open>io.emit\<close> of
  \<open>disconnect\<close> stands in the \<open>else\<close> branch of the test for the empty room.
\<close>

theorem disconnect_omits_public_rooms:
  "getPublicRooms created_state =
     [[(''id'', JStr ''R1''), (''isPublic'', JBool True), (''playersCount'', JNum 1),
       (''status'', JStr ''waiting'')]] \<and>
   snd (leave_room ''a'' created_state) =
     [ToRoom ''R1'' (GameState
        \<lparr>state_board = replicate 9 None, state_currentPlayer = MarkX,
         state_status = waiting, state_winner = None, state_players = [],
         isDraw = False\<rparr>),
      ToAll (PublicRooms [])] \<and>
   snd (disconnect ''a'' created_state) =
     [ToRoom ''R1'' (GameState
        \<lparr>state_board = replicate 9 None, state_currentPlayer = MarkX,
         state_status = waiting, state_winner = None, state_players = [],
         isDraw = False\<rparr>)] \<and>
   rooms (fst (leave_room ''a'' created_state)) = [] \<and>
   rooms (fst (disconnect ''a'' created_state)) = []"
  by (simp add: created_rooms created_player leave_room_def disconnect_def removePlayer_def
      reset_def updateRoomState_def room_state_def getPublicRooms_def getPublicInfo_def
      status_string_def Let_def)

section \<open>Rematch\<close>

lemma is_ready_after_request:
  "is_ready (case playersMap s sid of None \<Rightarrow> s
      | Some player \<Rightarrow>
          s\<lparr>playersMap := (playersMap s)(sid \<mapsto> player\<lparr>readyForRematch := True\<rparr>)\<rparr>) p
   \<longleftrightarrow> (if socketId p = sid then playersMap s sid \<noteq> None else is_ready s p)"
  by (simp add: is_ready_def split: option.splits)

lemma rooms_after_request:
  "rooms (case playersMap s sid of None \<Rightarrow> s
      | Some player \<Rightarrow>
          s\<lparr>playersMap := (playersMap s)(sid \<mapsto> player\<lparr>readyForRematch := True\<rparr>)\<rparr>) = rooms s"
  by (simp split: option.splits)

text \<open>
  What \<open>request-rematch\<close> does to a finished room of two players: it resets the room
  exactly when every entry of the room is either on the caller's socket (and the
  caller has a record) or has its flag set already, from whichever room and time.
\<close>

lemma request_rematch_finished:
  assumes "map_of (rooms s) rid = Some room" and "status room = finished"
    and "length (players room) = 2"
  shows "map_of (rooms (fst (request_rematch sid rid s))) rid =
           Some (if list_all (\<lambda>p. if socketId p = sid then playersMap s sid \<noteq> None
                                   else is_ready s p) (players room)
                 then reset room else room) \<and>
         snd (request_rematch sid rid s) =
           (if list_all (\<lambda>p. if socketId p = sid then playersMap s sid \<noteq> None
                               else is_ready s p) (players room)
            then [ToRoom rid (GameState (room_state (reset room)))]
            else [ToRoomExcept rid sid RematchRequested])"
  using assms
  by (simp add: request_rematch_def Let_def is_ready_after_request rooms_after_request
      rooms_fold_clear_ready update_conv' updateRoomState_def cong: list.pred_cong)

text \<open>
  With the flag of the other player not set, one request leaves the room as it is
  and sends only the notification to the rest of the group.
\<close>

lemma request_rematch_single:
  assumes "map_of (rooms s) rid = Some room" and "status room = finished"
    and "players room = [p, q]" and "socketId q \<noteq> sid" and "\<not> is_ready s q"
  shows "map_of (rooms (fst (request_rematch sid rid s))) rid = Some room \<and>
         snd (request_rematch sid rid s) = [ToRoomExcept rid sid RematchRequested]"
  using assms request_rematch_finished [OF assms(1,2), of sid]
  by simp

text \<open>
  C3: a room is to be reset by a rematch only when both players in it have asked for
  the rematch since its last reset, and one request is to leave it finished and only
  notify the other player. The code resets on flags, and a flag outlives the room it
  was set in. Socket a asked for a rematch in room R1 and then left it; \<open>leave-room\<close>
  does not clear \<open>readyForRematch\<close>, and neither does \<open>create-room\<close>. In room R2,
  which a created afterwards, the game of a and c is finished and neither has asked
  for a rematch of it. The one request of c resets the room: the board is empty, the
  status is playing, and the room gets the new state instead of a being notified.
\<close>

theorem rematch_with_stale_flag:
  "RequestRematch ''a'' ''R2'' \<notin> set (first_game @ second_game) \<and>
   RequestRematch ''c'' ''R2'' \<notin> set (first_game @ second_game) \<and>
   map_of (rooms stale_state) ''R2'' =
     Some \<lparr>ident = ''R2'', isPublic = False, creatorId = ''a'',
        players = [\<lparr>socketId = ''a'', name = ''Al'', symbol = MarkX\<rparr>,
                   \<lparr>socketId = ''c'', name = ''Cy'', symbol = MarkO\<rparr>],
        board = [Some MarkX, Some MarkX, Some MarkX, Some MarkO, Some MarkO, None,
                 None, None, None],
        currentPlayer = MarkX, status = finished, winner = Some MarkX, moves = 5\<rparr> \<and>
   map_of (rooms (fst (handle (RequestRematch ''c'' ''R2'') stale_state))) ''R2'' =
     Some \<lparr>ident = ''R2'', isPublic = False, creatorId = ''a'',
        players = [\<lparr>socketId = ''a'', name = ''Al'', symbol = MarkX\<rparr>,
                   \<lparr>socketId = ''c'', name = ''Cy'', symbol = MarkO\<rparr>],
        board = replicate 9 None,
        currentPlayer = MarkX, status = playing, winner = None, moves = 0\<rparr> \<and>
   snd (handle (RequestRematch ''c'' ''R2'') stale_state) =
     [ToRoom ''R2'' (GameState
        \<lparr>state_board = replicate 9 None, state_currentPlayer = MarkX,
         state_status = playing, state_winner = None,
         state_players =
           [\<lparr>view_name = ''Al'', view_symbol = MarkX, isCurrentPlayer = True\<rparr>,
            \<lparr>view_name = ''Cy'', view_symbol = MarkO, isCurrentPlayer = False\<rparr>],
         isDraw = False\<rparr>)]"
  by (simp add: stale_rooms stale_players first_game_def second_game_def request_rematch_def
      is_ready_def clear_ready_def reset_def updateRoomState_def room_state_def Let_def)

end
